theory Spec2Isabelle
  imports Complex_Main "HOL-Library.Log_Nat"
begin

section \<open>Python values\<close>

text \<open>
  The preprocessor is dynamically typed. A cell read from a CSV file is a string; the
  records the cleaners emit hold strings, integers, floats and booleans, and nothing in the
  code stops such a record from being handed to a cleaner again. A value is therefore one
  of the four kinds below, and \<open>None\<close> is the \<open>None\<close> of \<open>option\<close>.

  A string is a \<open>char list\<close>; each \<open>char\<close> stands for the code point of the same
  number, so the model covers strings over the code points 0 to 255.

  A float is either a finite value, kept as the rational number it denotes, an infinity or
  NaN. The two zeros are one value: Python compares them equal and treats both as false.
\<close>

datatype pyfloat = Fin rat | PInf | NInf | NaN

datatype pynum = NInt int | NFloat pyfloat

datatype pyval = VStr string | VNum pynum | VBool bool

datatype pyerr = ValueError | TypeError | OverflowError | AttributeError

type_synonym row = "string \<rightharpoonup> pyval"

text \<open>Truth value testing (\<open>not value\<close>, \<open>a or b\<close>, \<open>if x:\<close>).\<close>

fun num_truthy :: "pynum \<Rightarrow> bool" where
  "num_truthy (NInt i) = (i \<noteq> 0)"
| "num_truthy (NFloat f) = (f \<noteq> Fin 0)"

fun truthy :: "pyval option \<Rightarrow> bool" where
  "truthy None = False"
| "truthy (Some (VStr s)) = (s \<noteq> [])"
| "truthy (Some (VNum n)) = num_truthy n"
| "truthy (Some (VBool b)) = b"

definition py_or :: "pyval option \<Rightarrow> pyval option \<Rightarrow> pyval option" where
  "py_or a b = (if truthy a then a else b)"

text \<open>A row read from a file: every cell is a string.\<close>

definition raw :: "(string \<rightharpoonup> string) \<Rightarrow> row" where
  "raw r = (\<lambda>k. map_option VStr (r k))"

section \<open>Strings\<close>

definition code_point :: "char \<Rightarrow> nat" where
  "code_point c = of_char c"

text \<open>\<open>str.isspace\<close> on the code points below 256, which is what \<open>str.strip\<close> removes.\<close>

definition py_isspace :: "char \<Rightarrow> bool" where
  "py_isspace c = (code_point c \<in> set [9, 10, 11, 12, 13, 28, 29, 30, 31, 32, 133, 160])"

definition strip :: "string \<Rightarrow> string" where
  "strip s = rev (dropWhile py_isspace (rev (dropWhile py_isspace s)))"


definition is_upper :: "char \<Rightarrow> bool" where
  "is_upper c = ((65 \<le> code_point c \<and> code_point c \<le> 90)
                 \<or> (192 \<le> code_point c \<and> code_point c \<le> 222 \<and> code_point c \<noteq> 215))"

text \<open>The lower-case letters whose upper-case form is one code point below 256.\<close>

definition is_lower :: "char \<Rightarrow> bool" where
  "is_lower c = ((97 \<le> code_point c \<and> code_point c \<le> 122)
                 \<or> (224 \<le> code_point c \<and> code_point c \<le> 254 \<and> code_point c \<noteq> 247))"

text \<open>The letters that have a case: \<open>str.title\<close> lower-cases what follows one of them.\<close>

definition is_cased :: "char \<Rightarrow> bool" where
  "is_cased c = (is_upper c \<or> is_lower c \<or> code_point c \<in> set [170, 181, 186, 223, 255])"

definition lower_char :: "char \<Rightarrow> char" where
  "lower_char c = (if is_upper c then char_of (code_point c + 32) else c)"

definition upper_char :: "char \<Rightarrow> char" where
  "upper_char c = (if is_lower c then char_of (code_point c - 32) else c)"

definition upper_chars :: "char \<Rightarrow> string" where
  "upper_chars c = (if code_point c = 223 then ''SS'' else [upper_char c])"

definition title_chars :: "char \<Rightarrow> string" where
  "title_chars c = (if code_point c = 223 then ''Ss'' else [upper_char c])"

definition lower :: "string \<Rightarrow> string" where
  "lower s = map lower_char s"

definition upper :: "string \<Rightarrow> string" where
  "upper s = concat (map upper_chars s)"

text \<open>
  \<open>str.title\<close>: a letter that follows a letter is lower-cased, any other letter is put in
  title case.
\<close>

fun title_from :: "bool \<Rightarrow> string \<Rightarrow> string" where
  "title_from prev_cased [] = []"
| "title_from prev_cased (c # cs) =
     (if prev_cased then [lower_char c] else title_chars c) @ title_from (is_cased c) cs"

definition title :: "string \<Rightarrow> string" where
  "title s = title_from False s"

text \<open>
  Where \<open>float\<close> matches the spellings of infinity and NaN it ignores the case of the ASCII
  letters only.
\<close>

definition ascii_lower_char :: "char \<Rightarrow> char" where
  "ascii_lower_char c =
     (if 65 \<le> code_point c \<and> code_point c \<le> 90 then char_of (code_point c + 32) else c)"

definition ascii_lower :: "string \<Rightarrow> string" where
  "ascii_lower s = map ascii_lower_char s"

definition replace_char :: "char \<Rightarrow> string \<Rightarrow> string" where
  "replace_char c s = filter (\<lambda>x. x \<noteq> c) s"

section \<open>Floating point\<close>

text \<open>
  \<open>round_double\<close> is the IEEE 754 binary64 rounding of a rational number, to nearest with
  ties to even: 53 significant bits, least exponent \<open>-1022\<close> with gradual underflow, and
  overflow to an infinity.
\<close>

definition flog2 :: "rat \<Rightarrow> int" where
  "flog2 a = (let (p, q) = quotient_of a; d = bitlen p - bitlen q
              in if 2 powi d \<le> a then d else d - 1)"

definition round_half_even :: "rat \<Rightarrow> int" where
  "round_half_even x =
     (let f = \<lfloor>x\<rfloor>; d = x - of_int f
      in if d < 1 / 2 then f else if 1 / 2 < d then f + 1
         else if even f then f else f + 1)"

definition round_double :: "rat \<Rightarrow> pyfloat" where
  "round_double r =
     (if r = 0 then Fin 0
      else let a = \<bar>r\<bar>;
               e = max (flog2 a) (- 1022);
               u = 2 powi (e - 52);
               v = of_int (round_half_even (a / u)) * u
           in if 2 powi 1024 \<le> v then (if 0 < r then PInf else NInf)
              else Fin (if 0 < r then v else - v))"

text \<open>The exponent of the last place and the rounded significand, named for the proofs.\<close>

definition ulp_exp :: "rat \<Rightarrow> int" where
  "ulp_exp r = max (flog2 \<bar>r\<bar>) (- 1022)"

definition mantissa :: "rat \<Rightarrow> int" where
  "mantissa r = round_half_even (\<bar>r\<bar> / 2 powi (ulp_exp r - 52))"

fun fneg :: "pyfloat \<Rightarrow> pyfloat" where
  "fneg (Fin r) = Fin (- r)"
| "fneg PInf = NInf"
| "fneg NInf = PInf"
| "fneg NaN = NaN"

text \<open>Comparison of floats: false as soon as one side is NaN.\<close>

fun fle :: "pyfloat \<Rightarrow> pyfloat \<Rightarrow> bool" where
  "fle NaN _ = False"
| "fle _ NaN = False"
| "fle NInf _ = True"
| "fle _ PInf = True"
| "fle (Fin a) (Fin b) = (a \<le> b)"
| "fle _ _ = False"

fun flt :: "pyfloat \<Rightarrow> pyfloat \<Rightarrow> bool" where
  "flt NaN _ = False"
| "flt _ NaN = False"
| "flt (Fin a) (Fin b) = (a < b)"
| "flt NInf NInf = False"
| "flt NInf _ = True"
| "flt PInf _ = False"
| "flt (Fin a) PInf = True"
| "flt (Fin a) NInf = False"

text \<open>Python compares an integer with a float by value.\<close>

fun num_value :: "pynum \<Rightarrow> pyfloat" where
  "num_value (NInt i) = Fin (of_int i)"
| "num_value (NFloat f) = f"

definition num_le :: "pynum \<Rightarrow> pynum \<Rightarrow> bool" where
  "num_le a b = fle (num_value a) (num_value b)"

definition num_lt :: "pynum \<Rightarrow> pynum \<Rightarrow> bool" where
  "num_lt a b = flt (num_value a) (num_value b)"

subsection \<open>The literals \<open>float\<close> accepts\<close>

definition is_digit :: "char \<Rightarrow> bool" where
  "is_digit c = (48 \<le> code_point c \<and> code_point c \<le> 57)"

definition digit_val :: "char \<Rightarrow> nat" where
  "digit_val c = code_point c - 48"

definition digits_val :: "string \<Rightarrow> nat" where
  "digits_val ds = foldl (\<lambda>n c. 10 * n + digit_val c) 0 ds"

text \<open>An underscore is accepted between two digits only, and is then dropped.\<close>

fun drop_underscores :: "char \<Rightarrow> string \<Rightarrow> string option" where
  "drop_underscores prev [] = (if prev = CHR ''_'' then None else Some [])"
| "drop_underscores prev (c # cs) =
     (if c = CHR ''_'' then (if is_digit prev then drop_underscores c cs else None)
      else if prev = CHR ''_'' \<and> \<not> is_digit c then None
      else map_option ((#) c) (drop_underscores c cs))"

text \<open>
  The white space \<open>float\<close> skips at both ends: the ASCII white space, and the two further
  code points below 256 that it first turns into a blank.
\<close>

definition float_space :: "char \<Rightarrow> bool" where
  "float_space c = (code_point c \<in> set [9, 10, 11, 12, 13, 32, 133, 160])"

definition float_strip :: "string \<Rightarrow> string" where
  "float_strip s = rev (dropWhile float_space (rev (dropWhile float_space s)))"

definition parse_sign :: "string \<Rightarrow> bool \<times> string" where
  "parse_sign s =
     (case s of [] \<Rightarrow> (False, [])
      | c # t \<Rightarrow> if c = CHR ''-'' then (True, t)
                 else if c = CHR ''+'' then (False, t) else (False, s))"

definition parse_exponent :: "string \<Rightarrow> int option" where
  "parse_exponent s =
     (case s of [] \<Rightarrow> Some 0
      | c # t \<Rightarrow>
          if c = CHR ''e'' \<or> c = CHR ''E'' then
            (let (neg, ds) = parse_sign t
             in if ds \<noteq> [] \<and> list_all is_digit ds
                then Some (if neg then - int (digits_val ds) else int (digits_val ds))
                else None)
          else None)"

definition parse_decimal :: "string \<Rightarrow> rat option" where
  "parse_decimal s =
     (let ip = takeWhile is_digit s; r1 = dropWhile is_digit s;
          (fp, r2) = (case r1 of [] \<Rightarrow> ([], [])
                      | c # t \<Rightarrow> if c = CHR ''.''
                                 then (takeWhile is_digit t, dropWhile is_digit t)
                                 else ([], r1))
      in if ip = [] \<and> fp = [] then None
         else case parse_exponent r2 of None \<Rightarrow> None
              | Some ex \<Rightarrow>
                  Some (of_nat (digits_val (ip @ fp)) * 10 powi (ex - int (length fp))))"

definition parse_inf_nan :: "string \<Rightarrow> pyfloat option" where
  "parse_inf_nan s =
     (if ascii_lower s = ''inf'' \<or> ascii_lower s = ''infinity'' then Some PInf
      else if ascii_lower s = ''nan'' then Some NaN else None)"

text \<open>\<open>float(s)\<close> for a string: \<open>None\<close> is the \<open>ValueError\<close>.\<close>

definition float_of_string :: "string \<Rightarrow> pyfloat option" where
  "float_of_string s =
     (case drop_underscores (CHR 0x00) s of None \<Rightarrow> None
      | Some t \<Rightarrow>
          (let (neg, body) = parse_sign (float_strip t)
           in case parse_decimal body of
                Some r \<Rightarrow> Some (round_double (if neg then - r else r))
              | None \<Rightarrow> map_option (if neg then fneg else id) (parse_inf_nan body)))"

text \<open>\<open>float(x)\<close> and \<open>int(f)\<close> with the exceptions they raise.\<close>

fun py_float :: "pyval \<Rightarrow> pyerr + pyfloat" where
  "py_float (VStr s) = (case float_of_string s of None \<Rightarrow> Inl ValueError | Some f \<Rightarrow> Inr f)"
| "py_float (VNum (NInt i)) =
     (case round_double (of_int i) of Fin r \<Rightarrow> Inr (Fin r) | _ \<Rightarrow> Inl OverflowError)"
| "py_float (VNum (NFloat f)) = Inr f"
| "py_float (VBool b) = Inr (Fin (if b then 1 else 0))"

definition trunc :: "rat \<Rightarrow> int" where
  "trunc r = (if 0 \<le> r then \<lfloor>r\<rfloor> else \<lceil>r\<rceil>)"

fun py_int :: "pyfloat \<Rightarrow> pyerr + int" where
  "py_int (Fin r) = Inr (trunc r)"
| "py_int NaN = Inl ValueError"
| "py_int _ = Inl OverflowError"

section \<open>Field normalizers\<close>

subsection \<open>\<open>clean_string\<close>\<close>

definition is_control :: "char \<Rightarrow> bool" where
  "is_control c = (code_point c \<le> 31 \<or> (127 \<le> code_point c \<and> code_point c \<le> 159))"

definition remove_control :: "string \<Rightarrow> string" where
  "remove_control s = filter (\<lambda>c. \<not> is_control c) s"

definition null_strings :: "string list" where
  "null_strings = ['''', ''NULL'', ''null'', ''None'', ''N/A'', ''n/a'']"

text \<open>
  A value that is not a string and is not false has no \<open>strip\<close> method: the call raises
  \<open>AttributeError\<close>.
\<close>

fun clean_string :: "pyval option \<Rightarrow> pyerr + string option" where
  "clean_string (Some (VStr s)) =
     (if s = [] \<or> strip s \<in> set null_strings then Inr None
      else let cleaned = remove_control (strip s)
           in Inr (if cleaned \<noteq> [] then Some cleaned else None))"
| "clean_string v = (if \<not> truthy v then Inr None else Inl AttributeError)"

subsection \<open>\<open>clean_numeric\<close>\<close>

datatype data_type = KInt | KFloat

definition numeric_nulls :: "string list" where
  "numeric_nulls = [''null'', ''none'', ''n/a'', '''', ''nan'']"

text \<open>The body of the \<open>try\<close>, and the \<open>except (ValueError, TypeError)\<close> around it.\<close>

fun convert :: "pyerr + pyfloat \<Rightarrow> data_type \<Rightarrow> pyerr + pynum" where
  "convert (Inl e) _ = Inl e"
| "convert (Inr f) KInt = (case py_int f of Inl e \<Rightarrow> Inl e | Inr i \<Rightarrow> Inr (NInt i))"
| "convert (Inr f) KFloat = Inr (NFloat f)"

fun except_value_type :: "pyerr + pynum \<Rightarrow> pyerr + pynum option" where
  "except_value_type (Inr n) = Inr (Some n)"
| "except_value_type (Inl ValueError) = Inr None"
| "except_value_type (Inl TypeError) = Inr None"
| "except_value_type (Inl e) = Inl e"

text \<open>\<open>text.replace('$', '').replace(',', '').replace('%', '').strip()\<close>\<close>

definition cleaned_text :: "string \<Rightarrow> string" where
  "cleaned_text text =
     strip (replace_char (CHR ''%'') (replace_char (CHR '','') (replace_char (CHR ''$'') text)))"

definition numeric_of_text :: "string \<Rightarrow> data_type \<Rightarrow> pyerr + pynum option" where
  "numeric_of_text text data_type =
     (let cleaned = cleaned_text text
      in if lower cleaned \<in> set numeric_nulls then Inr None
         else except_value_type (convert (py_float (VStr cleaned)) data_type))"

text \<open>
  \<open>clean_numeric\<close> works on \<open>str(value)\<close>. For a string that is the string itself. For a
  number, \<open>str\<close> gives its literal, which holds none of the stripped symbols and no white
  space and which \<open>float\<close> reads back: as the same float (the literal of a float is chosen to
  round-trip; that of NaN is \<open>nan\<close>, one of the null spellings), or as the integer rounded to
  a float. For \<open>True\<close> it gives \<open>True\<close>, which \<open>float\<close> rejects.
\<close>

definition clean_numeric :: "pyval option \<Rightarrow> data_type \<Rightarrow> pyerr + pynum option" where
  "clean_numeric v data_type =
     (if \<not> truthy v then Inr None
      else case v of
             Some (VStr s) \<Rightarrow> numeric_of_text s data_type
           | Some (VNum (NInt i)) \<Rightarrow>
               except_value_type (convert (Inr (round_double (of_int i))) data_type)
           | Some (VNum (NFloat f)) \<Rightarrow>
               if f = NaN then Inr None
               else except_value_type (convert (Inr f) data_type)
           | _ \<Rightarrow> Inr None)"

subsection \<open>\<open>clean_year\<close>\<close>

definition clean_year :: "pyval option \<Rightarrow> pyerr + pynum option" where
  "clean_year v =
     (case clean_numeric v KInt of
        Inl e \<Rightarrow> Inl e
      | Inr None \<Rightarrow> Inr None
      | Inr (Some year) \<Rightarrow>
          if num_truthy year \<and> num_le (NInt 1990) year \<and> num_le year (NInt 2030)
          then Inr (Some year) else Inr None)"

subsection \<open>\<open>standardize_make\<close>\<close>

definition standardization_map :: "(string \<times> string) list" where
  "standardization_map =
     [(''bmw'', ''BMW''),
      (''tesla'', ''Tesla''),
      (''audi'', ''Audi''),
      (''mercedes'', ''Mercedes-Benz''),
      (''mercedes-benz'', ''Mercedes-Benz''),
      (''volkswagen'', ''Volkswagen''),
      (''vw'', ''Volkswagen''),
      (''nissan'', ''Nissan''),
      (''hyundai'', ''Hyundai''),
      (''kia'', ''Kia''),
      (''ford'', ''Ford''),
      (''chevrolet'', ''Chevrolet''),
      (''chevy'', ''Chevrolet''),
      (''byd'', ''BYD''),
      (''nio'', ''NIO''),
      (''lucid'', ''Lucid Motors''),
      (''rivian'', ''Rivian''),
      (''polestar'', ''Polestar'')]"

definition standardize_make :: "pyval option \<Rightarrow> pyerr + string option" where
  "standardize_make make =
     (if \<not> truthy make then Inr None
      else case clean_string make of
             Inl e \<Rightarrow> Inl e
           | Inr None \<Rightarrow> Inr None
           | Inr (Some m) \<Rightarrow>
               if m = [] then Inr None
               else Inr (Some (case map_of standardization_map (lower m) of
                                 Some v \<Rightarrow> v | None \<Rightarrow> title m)))"

subsection \<open>\<open>validate_coordinates\<close>\<close>

text \<open>\<open>float(x) if x else None\<close>\<close>

definition float_if :: "pyval option \<Rightarrow> pyerr + pyfloat option" where
  "float_if v =
     (case v of None \<Rightarrow> Inr None
      | Some x \<Rightarrow> if truthy v then (case py_float x of Inl e \<Rightarrow> Inl e | Inr f \<Rightarrow> Inr (Some f))
                  else Inr None)"

definition in_range :: "int \<Rightarrow> pyfloat \<Rightarrow> int \<Rightarrow> bool" where
  "in_range lo f hi = (fle (Fin (of_int lo)) f \<and> fle f (Fin (of_int hi)))"

definition coordinates_checked ::
  "pyerr + pyfloat option \<Rightarrow> pyerr + pyfloat option
     \<Rightarrow> pyerr + (pyfloat option \<times> pyfloat option)" where
  "coordinates_checked lat_f lng_f =
     (case lat_f of Inl e \<Rightarrow> Inl e
      | Inr la \<Rightarrow>
          (case lng_f of Inl e \<Rightarrow> Inl e
           | Inr lg \<Rightarrow>
               (case (la, lg) of
                  (Some a, Some b) \<Rightarrow>
                    if in_range (- 90) a 90 \<and> in_range (- 180) b 180
                    then Inr (Some a, Some b) else Inr (None, None)
                | _ \<Rightarrow> Inr (None, None))))"

definition validate_coordinates ::
  "pyval option \<Rightarrow> pyval option \<Rightarrow> pyerr + (pyfloat option \<times> pyfloat option)" where
  "validate_coordinates lat lng =
     (case coordinates_checked (float_if lat) (float_if lng) of
        Inl ValueError \<Rightarrow> Inr (None, None)
      | Inl TypeError \<Rightarrow> Inr (None, None)
      | r \<Rightarrow> r)"

section \<open>Dataset cleaners\<close>

text \<open>
  A cleaner walks the rows in order. A row is either emitted as a cleaned record or skipped
  (\<open>continue\<close>, or the final test failing); an exception that escapes a normalizer ends the
  whole run.
\<close>

definition bind_err :: "pyerr + 'a \<Rightarrow> ('a \<Rightarrow> pyerr + 'b) \<Rightarrow> pyerr + 'b" where
  "bind_err m f = (case m of Inl e \<Rightarrow> Inl e | Inr x \<Rightarrow> f x)"

fun clean_rows :: "(row \<Rightarrow> pyerr + row option) \<Rightarrow> row list \<Rightarrow> pyerr + row list" where
  "clean_rows f [] = Inr []"
| "clean_rows f (r # rs) =
     bind_err (f r) (\<lambda>cleaned_row.
     bind_err (clean_rows f rs) (\<lambda>cleaned_data.
       Inr (case cleaned_row of None \<Rightarrow> cleaned_data | Some c \<Rightarrow> c # cleaned_data)))"

text \<open>\<open>if x: cleaned_row[k] = x\<close>, with the further test some fields add.\<close>

definition put_str :: "string \<Rightarrow> string option \<Rightarrow> row \<Rightarrow> row" where
  "put_str k s cleaned_row =
     (case s of None \<Rightarrow> cleaned_row
      | Some t \<Rightarrow> if t \<noteq> [] then cleaned_row(k \<mapsto> VStr t) else cleaned_row)"

definition put_num :: "string \<Rightarrow> pynum option \<Rightarrow> row \<Rightarrow> row" where
  "put_num k n cleaned_row =
     (case n of None \<Rightarrow> cleaned_row
      | Some x \<Rightarrow> if num_truthy x then cleaned_row(k \<mapsto> VNum x) else cleaned_row)"

definition put_positive :: "string \<Rightarrow> pynum option \<Rightarrow> row \<Rightarrow> row" where
  "put_positive k n cleaned_row =
     (case n of None \<Rightarrow> cleaned_row
      | Some x \<Rightarrow> if num_truthy x \<and> num_lt (NInt 0) x then cleaned_row(k \<mapsto> VNum x)
                  else cleaned_row)"

subsection \<open>Vehicle population\<close>

definition population_record ::
  "string \<Rightarrow> string \<Rightarrow> pynum option \<Rightarrow> string option \<Rightarrow> pynum option \<Rightarrow> pynum option
     \<Rightarrow> string option \<Rightarrow> string option \<Rightarrow> string option \<Rightarrow> string option \<Rightarrow> row" where
  "population_record make model year ev_type electric_range price state city county vin =
     (let r1 = Map.empty(''make'' \<mapsto> VStr make);
          r2 = r1(''model'' \<mapsto> VStr model);
          r3 = put_num ''model_year'' year r2;
          r4 = put_str ''electric_vehicle_type'' ev_type r3;
          r5 = put_positive ''electric_range'' electric_range r4;
          r6 = put_positive ''base_msrp'' price r5;
          r7 = put_str ''state'' state r6;
          r8 = put_str ''city'' city r7;
          r9 = put_str ''county'' county r8
      in put_str ''vin_1_10''
           (case vin of None \<Rightarrow> None | Some v \<Rightarrow> if 10 \<le> length v then Some v else None) r9)"

definition clean_ev_population_row :: "row \<Rightarrow> pyerr + row option" where
  "clean_ev_population_row row =
     bind_err (standardize_make (py_or (row ''make'') (row ''Make''))) (\<lambda>make.
     bind_err (clean_string (py_or (row ''model'') (row ''Model''))) (\<lambda>model.
     case (make, model) of
       (Some mk, Some md) \<Rightarrow>
         if mk = [] \<or> md = [] then Inr None
         else
           bind_err (clean_year (py_or (py_or (py_or (row ''model_year'') (row ''Model Year''))
                                  (row ''year'')) (row ''Year''))) (\<lambda>year.
           bind_err (clean_string (py_or (py_or (row ''electric_vehicle_type'')
                                    (row ''Electric Vehicle Type'')) (row ''EV Type''))) (\<lambda>ev_type.
           bind_err (clean_numeric (py_or (py_or (row ''electric_range'')
                                     (row ''Electric Range'')) (row ''range'')) KInt)
             (\<lambda>electric_range.
           bind_err (clean_numeric (py_or (py_or (py_or (row ''base_msrp'') (row ''Base MSRP''))
                                     (row ''MSRP'')) (row ''price'')) KFloat) (\<lambda>price.
           bind_err (clean_string (py_or (row ''state'') (row ''State''))) (\<lambda>state.
           bind_err (clean_string (py_or (row ''city'') (row ''City''))) (\<lambda>city.
           bind_err (clean_string (py_or (row ''county'') (row ''County''))) (\<lambda>county.
           bind_err (clean_string (py_or (py_or (py_or (row ''vin_1_10'') (row ''VIN (1-10)''))
                                    (row ''VIN'')) (row ''vin''))) (\<lambda>vin.
             let cleaned_row = population_record mk md year ev_type electric_range price
                                 state city county vin
             in if truthy (cleaned_row ''make'') \<and> truthy (cleaned_row ''model'')
                   \<and> truthy (py_or (cleaned_row ''state'') (cleaned_row ''city''))
                then Inr (Some cleaned_row) else Inr None))))))))
     | _ \<Rightarrow> Inr None))"

definition clean_ev_population_data :: "row list \<Rightarrow> pyerr + row list" where
  "clean_ev_population_data raw_data = clean_rows clean_ev_population_row raw_data"

subsection \<open>Charging stations\<close>

text \<open>
  \<open>is_fast_dc\<close> is set whenever the cell is not \<open>None\<close>: from a string by comparing its
  upper-cased form with four spellings, from any other value by its truth value.
\<close>

definition fast_dc_flag :: "pyval option \<Rightarrow> pyval option" where
  "fast_dc_flag is_fast =
     (case is_fast of None \<Rightarrow> None
      | Some (VStr s) \<Rightarrow> Some (VBool (upper s \<in> set [''TRUE'', ''YES'', ''1'', ''T'']))
      | Some v \<Rightarrow> Some (VBool (truthy (Some v))))"

definition station_record ::
  "pyfloat \<Rightarrow> pyfloat \<Rightarrow> string \<Rightarrow> string option \<Rightarrow> pynum option \<Rightarrow> pynum option
     \<Rightarrow> string option \<Rightarrow> pyval option \<Rightarrow> string option \<Rightarrow> string option \<Rightarrow> string option
     \<Rightarrow> row" where
  "station_record lat lng country city power_kw ports power_cls is_fast connector network status =
     (let r1 = Map.empty(''latitude'' \<mapsto> VNum (NFloat lat));
          r2 = r1(''longitude'' \<mapsto> VNum (NFloat lng));
          r3 = r2(''country_code'' \<mapsto> VStr (upper country));
          r4 = put_str ''city'' city r3;
          r5 = put_positive ''power_kw'' power_kw r4;
          r6 = put_positive ''ports'' ports r5;
          r7 = put_str ''power_class'' power_cls r6;
          r8 = (case fast_dc_flag is_fast of None \<Rightarrow> r7 | Some b \<Rightarrow> r7(''is_fast_dc'' \<mapsto> b));
          r9 = put_str ''connector_type'' connector r8;
          r10 = put_str ''network'' network r9
      in put_str ''status'' status r10)"

definition clean_charging_stations_row :: "row \<Rightarrow> pyerr + row option" where
  "clean_charging_stations_row row =
     bind_err (validate_coordinates (row ''latitude'') (row ''longitude'')) (\<lambda>coordinates.
     case coordinates of
       (Some lat, Some lng) \<Rightarrow>
         bind_err (clean_string (py_or (row ''country_code'') (row ''country''))) (\<lambda>country.
         case country of
           None \<Rightarrow> Inr None
         | Some c \<Rightarrow>
             if c = [] then Inr None
             else
               bind_err (clean_string (row ''city'')) (\<lambda>city.
               bind_err (clean_numeric (py_or (row ''power_kw'') (row ''power'')) KFloat)
                 (\<lambda>power_kw.
               bind_err (clean_numeric (row ''ports'') KInt) (\<lambda>ports.
               bind_err (clean_string (row ''power_class'')) (\<lambda>power_cls.
               bind_err (clean_string (row ''connector_type'')) (\<lambda>connector.
               bind_err (clean_string (py_or (row ''network'') (row ''operator'')))
                 (\<lambda>network.
               bind_err (clean_string (row ''status'')) (\<lambda>status.
                 Inr (Some (station_record lat lng c city power_kw ports power_cls
                              (row ''is_fast_dc'') connector network status))))))))))
     | _ \<Rightarrow> Inr None)"


subsection \<open>Sales\<close>

definition sales_record ::
  "string \<Rightarrow> pynum \<Rightarrow> string option \<Rightarrow> pynum option \<Rightarrow> string option \<Rightarrow> string option
     \<Rightarrow> string option \<Rightarrow> row" where
  "sales_record region year parameter val unit mode powertrain =
     (let r1 = Map.empty(''region'' \<mapsto> VStr region);
          r2 = r1(''year'' \<mapsto> VNum year);
          r3 = put_str ''parameter'' parameter r2;
          r4 = (case val of None \<Rightarrow> r3 | Some v \<Rightarrow> r3(''value'' \<mapsto> VNum v));
          r5 = put_str ''unit'' unit r4;
          r6 = put_str ''mode'' mode r5
      in put_str ''powertrain'' powertrain r6)"

definition clean_ev_sales_row :: "row \<Rightarrow> pyerr + row option" where
  "clean_ev_sales_row row =
     bind_err (clean_string (py_or (row ''region'') (row ''country''))) (\<lambda>region.
     case region of
       None \<Rightarrow> Inr None
     | Some reg \<Rightarrow>
         if reg = [] then Inr None
         else
           bind_err (clean_year (row ''year'')) (\<lambda>year.
           case year of
             None \<Rightarrow> Inr None
           | Some y \<Rightarrow>
               if \<not> num_truthy y then Inr None
               else
                 bind_err (clean_string (py_or (row ''parameter'') (row ''category'')))
                   (\<lambda>parameter.
                 bind_err (clean_numeric (row ''value'') KFloat) (\<lambda>val.
                 bind_err (clean_string (row ''unit'')) (\<lambda>unit.
                 bind_err (clean_string (row ''mode'')) (\<lambda>mode.
                 bind_err (clean_string (row ''powertrain'')) (\<lambda>powertrain.
                   Inr (Some (sales_record reg y parameter val unit mode powertrain)))))))))"

definition clean_ev_sales_data :: "row list \<Rightarrow> pyerr + row list" where
  "clean_ev_sales_data raw_data = clean_rows clean_ev_sales_row raw_data"

subsection \<open>The cleaner of each dataset kind\<close>



section \<open>Column type inference\<close>

definition non_empty_values :: "string list \<Rightarrow> string list" where
  "non_empty_values values = map strip (filter (\<lambda>v. v \<noteq> [] \<and> strip v \<noteq> []) values)"

text \<open>
  The loop inside the \<open>try\<close>: the flag \<open>has_decimal\<close> as it stands after the last value, or
  the exception that ended the loop.
\<close>

fun numeric_scan :: "string list \<Rightarrow> bool \<Rightarrow> pyerr + bool" where
  "numeric_scan [] has_decimal = Inr has_decimal"
| "numeric_scan (v # vs) has_decimal =
     bind_err (py_float (VStr v)) (\<lambda>float_val.
       if CHR ''.'' \<in> set v then numeric_scan vs True
       else bind_err (py_int float_val) (\<lambda>i.
              if float_val \<noteq> Fin (of_int i) then numeric_scan vs True
              else numeric_scan vs has_decimal))"

definition max_length :: "string list \<Rightarrow> nat" where
  "max_length vs = foldr (\<lambda>v m. max (length v) m) vs 0"

definition varchar_bucket :: "nat \<Rightarrow> string" where
  "varchar_bucket n =
     (if n \<le> 50 then ''VARCHAR(100)'' else if n \<le> 150 then ''VARCHAR(200)'' else ''TEXT'')"

definition guess_column_type :: "string list \<Rightarrow> pyerr + string" where
  "guess_column_type values =
     (let nev = non_empty_values values
      in if nev = [] then Inr ''TEXT''
         else case numeric_scan (take 20 nev) False of
                Inr has_decimal \<Rightarrow>
                  Inr (if has_decimal then ''DECIMAL(15,4)'' else ''INTEGER'')
              | Inl ValueError \<Rightarrow> Inr (varchar_bucket (max_length (take 50 nev)))
              | Inl TypeError \<Rightarrow> Inr (varchar_bucket (max_length (take 50 nev)))
              | Inl e \<Rightarrow> Inl e)"

section \<open>Predicates used to state the properties\<close>

text \<open>A coordinate cell that holds a float literal whose value lies in the given range.\<close>

definition parses_within :: "string option \<Rightarrow> int \<Rightarrow> int \<Rightarrow> pyfloat \<Rightarrow> bool" where
  "parses_within cell lo hi x =
     (case cell of None \<Rightarrow> False
      | Some s \<Rightarrow> float_of_string s = Some x \<and> in_range lo x hi)"

text \<open>
  Column type inference in the words of the specification: a value is a number when it
  parses to a float other than NaN, and marks the column decimal when it holds a point or
  its value differs from its truncation.
\<close>

definition is_number :: "string \<Rightarrow> bool" where
  "is_number v = (case float_of_string v of None \<Rightarrow> False | Some f \<Rightarrow> f \<noteq> NaN)"

definition is_decimal :: "string \<Rightarrow> bool" where
  "is_decimal v =
     (CHR ''.'' \<in> set v
      \<or> (case float_of_string v of Some (Fin r) \<Rightarrow> r \<noteq> of_int (trunc r) | _ \<Rightarrow> False))"

definition column_type_spec :: "string list \<Rightarrow> string" where
  "column_type_spec values =
     (let nev = non_empty_values values
      in if nev = [] then ''TEXT''
         else if list_all is_number (take 20 nev)
              then (if list_ex is_decimal (take 20 nev) then ''DECIMAL(15,4)'' else ''INTEGER'')
              else varchar_bucket (max_length (take 50 nev)))"

text \<open>A literal without a point that \<open>float\<close> reads as an infinity, such as \<open>inf\<close> or \<open>1e999\<close>.\<close>

definition dotless_infinity :: "string \<Rightarrow> bool" where
  "dotless_infinity v =
     (CHR ''.'' \<notin> set v \<and> (float_of_string v = Some PInf \<or> float_of_string v = Some NInf))"






section \<open>Properties of the rounding\<close>

lemma pow2_less_iff: "(2::rat) powi m < 2 powi n \<longleftrightarrow> m < n"
proof
  assume h: "(2::rat) powi m < 2 powi n"
  show "m < n"
  proof (rule ccontr)
    assume "\<not> m < n"
    then have "n \<le> m" by simp
    then have "(2::rat) powi n \<le> 2 powi m" by (intro power_int_increasing) auto
    with h show False by simp
  qed
next
  assume "m < n"
  then show "(2::rat) powi m < 2 powi n" by (intro power_int_strict_increasing) auto
qed

lemma pow2_le_iff: "(2::rat) powi m \<le> 2 powi n \<longleftrightarrow> m \<le> n"
  using pow2_less_iff[of n m] by (auto simp: not_less[symmetric])

lemma bitlen_rat_bounds:
  assumes "0 < p"
  shows "(2::rat) powi (bitlen p - 1) \<le> of_int p" and "of_int p < (2::rat) powi bitlen p"
proof -
  have b1: "1 \<le> bitlen p" using assms by (simp add: bitlen_alt_def)
  have lo: "2 ^ nat (bitlen p - 1) \<le> p" and hi: "p < 2 ^ nat (bitlen p)"
    using bitlen_bounds[OF assms] by auto
  have "(of_int (2 ^ nat (bitlen p - 1)) :: rat) \<le> of_int p"
    using lo by (simp only: of_int_le_iff)
  then show "(2::rat) powi (bitlen p - 1) \<le> of_int p"
    using b1 by (simp add: power_int_nonneg_exp)
  have "(of_int p :: rat) < of_int (2 ^ nat (bitlen p))"
    using hi by (simp only: of_int_less_iff)
  then show "of_int p < (2::rat) powi bitlen p"
    using b1 by (simp add: power_int_nonneg_exp)
qed

lemma flog2_bounds:
  fixes a :: rat
  assumes "0 < a"
  shows "2 powi flog2 a \<le> a" and "a < 2 powi (flog2 a + 1)"
proof -
  obtain p q where pq: "quotient_of a = (p, q)" by force
  have q: "0 < q" using quotient_of_denom_pos[OF pq] .
  have a: "a = of_int p / of_int q" using quotient_of_div[OF pq] .
  have p: "0 < p" using assms a q by (simp add: zero_less_divide_iff)
  define d where "d = bitlen p - bitlen q"
  define P Q :: rat where "P = of_int p" and "Q = of_int q"
  have P: "0 < P" and Q: "0 < Q" using p q by (simp_all add: P_def Q_def)
  have bp: "2 powi (bitlen p - 1) \<le> P" "P < 2 powi bitlen p"
    using bitlen_rat_bounds[OF p] by (simp_all add: P_def)
  have bq: "2 powi (bitlen q - 1) \<le> Q" "Q < 2 powi bitlen q"
    using bitlen_rat_bounds[OF q] by (simp_all add: Q_def)
  have aPQ: "a = P / Q" using a by (simp add: P_def Q_def)
  have "2 powi (bitlen p - 1) * Q < P * 2 powi bitlen q"
  proof -
    have "2 powi (bitlen p - 1) * Q < 2 powi (bitlen p - 1) * 2 powi bitlen q"
      using bq(2) by (intro mult_strict_left_mono) auto
    also have "\<dots> \<le> P * 2 powi bitlen q"
      using bp(1) by (intro mult_right_mono) auto
    finally show ?thesis .
  qed
  then have "2 powi (bitlen p - 1) / 2 powi bitlen q < P / Q"
    using Q by (simp add: field_simps)
  moreover have "(2::rat) powi (d - 1) = 2 powi (bitlen p - 1) / 2 powi bitlen q"
    by (simp add: d_def power_int_diff)
  ultimately have lo: "2 powi (d - 1) < a" by (simp add: aPQ)
  have "P * 2 powi (bitlen q - 1) < 2 powi bitlen p * Q"
  proof -
    have "P * 2 powi (bitlen q - 1) \<le> P * Q"
      using bq(1) P by (intro mult_left_mono) auto
    also have "\<dots> < 2 powi bitlen p * Q"
      using bp(2) Q by (intro mult_strict_right_mono) auto
    finally show ?thesis .
  qed
  then have "P / Q < 2 powi bitlen p / 2 powi (bitlen q - 1)"
    using Q by (simp add: field_simps)
  moreover have "(2::rat) powi (d + 1) = 2 powi bitlen p / 2 powi (bitlen q - 1)"
  proof -
    have "(2::rat) powi (d + 1) = 2 powi (bitlen p - (bitlen q - 1))"
      by (rule arg_cong[where f = "\<lambda>k. 2 powi k"]) (simp add: d_def)
    also have "\<dots> = 2 powi bitlen p / 2 powi (bitlen q - 1)"
      by (rule power_int_diff) simp
    finally show ?thesis .
  qed
  ultimately have hi: "a < 2 powi (d + 1)" by (simp add: aPQ)
  have f: "flog2 a = (if 2 powi d \<le> a then d else d - 1)"
    by (simp add: flog2_def pq d_def Let_def)
  show "2 powi flog2 a \<le> a" using lo f by auto
  show "a < 2 powi (flog2 a + 1)" using hi f by (auto simp: not_le)
qed

lemma flog2_unique:
  fixes a :: rat
  assumes "2 powi e \<le> a" "a < 2 powi (e + 1)"
  shows "flog2 a = e"
proof -
  have e: "(0::rat) < 2 powi e" by simp
  have a: "0 < a" using e assms(1) by (rule less_le_trans)
  note b = flog2_bounds[OF a]
  have "(2::rat) powi flog2 a < 2 powi (e + 1)" using b(1) assms(2) by simp
  then have 1: "flog2 a < e + 1" by (simp only: pow2_less_iff)
  have "(2::rat) powi e < 2 powi (flog2 a + 1)" using b(2) assms(1) by simp
  then have 2: "e < flog2 a + 1" by (simp only: pow2_less_iff)
  from 1 2 show ?thesis by simp
qed


lemma round_half_even_of_int: "round_half_even (of_int m) = m"
  by (simp add: round_half_even_def)

lemma round_half_even_le:
  assumes "x \<le> of_int n"
  shows "round_half_even x \<le> n"
proof -
  have fl: "\<lfloor>x\<rfloor> \<le> n" using assms by (simp add: floor_le_iff)
  show ?thesis
  proof (cases "x = of_int \<lfloor>x\<rfloor>")
    case True
    then have "round_half_even x = \<lfloor>x\<rfloor>" by (simp add: round_half_even_def)
    with fl show ?thesis by simp
  next
    case False
    then have "of_int \<lfloor>x\<rfloor> \<noteq> x" by (rule not_sym)
    moreover have "of_int \<lfloor>x\<rfloor> \<le> x" by (rule of_int_floor_le)
    ultimately have "of_int \<lfloor>x\<rfloor> < x" by (rule order.not_eq_order_implies_strict)
    with assms have "(of_int \<lfloor>x\<rfloor> :: rat) < of_int n" by simp
    then have "\<lfloor>x\<rfloor> < n" by (simp only: of_int_less_iff)
    moreover have "round_half_even x \<le> \<lfloor>x\<rfloor> + 1"
      by (simp add: round_half_even_def Let_def)
    ultimately show ?thesis by simp
  qed
qed

lemma round_half_even_ge:
  assumes "of_int n \<le> x"
  shows "n \<le> round_half_even x"
proof -
  have "n \<le> \<lfloor>x\<rfloor>" using assms by (simp add: le_floor_iff)
  moreover have "\<lfloor>x\<rfloor> \<le> round_half_even x" by (simp add: round_half_even_def Let_def)
  ultimately show ?thesis by simp
qed

lemma round_double_eq:
  "r \<noteq> 0 \<Longrightarrow> round_double r =
     (if 2 powi 1024 \<le> of_int (mantissa r) * (2::rat) powi (ulp_exp r - 52)
      then (if 0 < r then PInf else NInf)
      else Fin (sgn r * (of_int (mantissa r) * 2 powi (ulp_exp r - 52))))"
  by (simp add: round_double_def Let_def mantissa_def ulp_exp_def sgn_if not_less less_le)

lemma mantissa_bounds:
  assumes "r \<noteq> 0"
  shows "0 \<le> mantissa r" and "mantissa r \<le> 2 ^ 53"
proof -
  define e where "e = ulp_exp r"
  have a: "0 < \<bar>r\<bar>" using assms by simp
  have u: "(0::rat) < 2 powi (e - 52)" by simp
  have "(of_int 0 :: rat) \<le> \<bar>r\<bar> / 2 powi (e - 52)" using u by simp
  then show "0 \<le> mantissa r"
    unfolding mantissa_def e_def[symmetric] by (rule round_half_even_ge)
  have "flog2 \<bar>r\<bar> + 1 \<le> e + 1" by (simp add: e_def ulp_exp_def)
  then have "(2::rat) powi (flog2 \<bar>r\<bar> + 1) \<le> 2 powi (e + 1)" by (simp only: pow2_le_iff)
  with flog2_bounds(2)[OF a] have "\<bar>r\<bar> < 2 powi (e + 1)" by simp
  moreover have "(2::rat) powi (e + 1) = 2 powi 53 * 2 powi (e - 52)"
  proof -
    have "(2::rat) powi (e + 1) = 2 powi (53 + (e - 52))"
      by (rule arg_cong[where f = "\<lambda>k. 2 powi k"]) simp
    also have "\<dots> = 2 powi 53 * 2 powi (e - 52)" by (rule power_int_add) simp
    finally show ?thesis .
  qed
  ultimately have "\<bar>r\<bar> / 2 powi (e - 52) < 2 powi 53" using u by (simp add: field_simps)
  then have "\<bar>r\<bar> / 2 powi (e - 52) \<le> of_int (2 ^ 53)" by simp
  then show "mantissa r \<le> 2 ^ 53"
    unfolding mantissa_def e_def[symmetric] by (rule round_half_even_le)
qed

text \<open>Rounding a value whose exponent is known.\<close>

lemma ulp_exp_eq:
  assumes "2 powi e \<le> \<bar>r\<bar>" "\<bar>r\<bar> < 2 powi (e + 1)" "- 1022 \<le> e"
  shows "ulp_exp r = e"
  using flog2_unique[OF assms(1,2)] assms(3) by (simp add: ulp_exp_def)

lemma round_double_at:
  assumes "2 powi e \<le> \<bar>r\<bar>" "\<bar>r\<bar> < 2 powi (e + 1)" "- 1022 \<le> e" "e < 1023"
  shows "round_double r =
           Fin (sgn r * (of_int (round_half_even (\<bar>r\<bar> / 2 powi (e - 52))) * 2 powi (e - 52)))"
proof -
  have "(0::rat) < 2 powi e" by simp
  then have "0 < \<bar>r\<bar>" using assms(1) by (rule less_le_trans)
  then have r: "r \<noteq> 0" by simp
  have ue: "ulp_exp r = e" using assms(1-3) by (rule ulp_exp_eq)
  have m: "mantissa r = round_half_even (\<bar>r\<bar> / 2 powi (e - 52))" by (simp add: mantissa_def ue)
  have "(of_int (mantissa r) :: rat) \<le> of_int (2 ^ 53)"
    using mantissa_bounds(2)[OF r] by (simp only: of_int_le_iff)
  then have "of_int (mantissa r) * (2::rat) powi (e - 52) \<le> 2 powi 53 * 2 powi (e - 52)"
    by (intro mult_right_mono) auto
  also have "\<dots> = 2 powi (53 + (e - 52))" by (rule power_int_add[symmetric]) simp
  also have "\<dots> = 2 powi (e + 1)" by (rule arg_cong[where f = "\<lambda>k. 2 powi k"]) simp
  also have "\<dots> < 2 powi 1024" using assms(4) by (simp only: pow2_less_iff)
  finally have "\<not> 2 powi 1024 \<le> of_int (mantissa r) * (2::rat) powi (ulp_exp r - 52)"
    by (simp add: ue)
  then show ?thesis using round_double_eq[OF r] by (simp add: m ue)
qed

lemma round_double_exact:
  assumes "2 powi e \<le> \<bar>r\<bar>" "\<bar>r\<bar> < 2 powi (e + 1)" "- 1022 \<le> e" "e < 1023"
    and "\<bar>r\<bar> / 2 powi (e - 52) = of_int m"
  shows "round_double r = Fin r"
proof -
  have "\<bar>r\<bar> = of_int m * 2 powi (e - 52)" using assms(5) by (simp add: field_simps)
  then have "sgn r * (of_int m * 2 powi (e - 52)) = r" by (simp add: sgn_if abs_if split: if_splits)
  then show ?thesis
    using round_double_at[OF assms(1-4)] by (simp add: assms(5) round_half_even_of_int)
qed


lemma round_double_fixed:
  assumes "r \<noteq> 0" "\<bar>r\<bar> < 2 powi 1024" "\<bar>r\<bar> / 2 powi (ulp_exp r - 52) = of_int m"
  shows "round_double r = Fin r"
proof -
  have m: "mantissa r = m" by (simp add: mantissa_def assms(3) round_half_even_of_int)
  have v: "of_int m * 2 powi (ulp_exp r - 52) = \<bar>r\<bar>"
    using assms(3) by (simp add: field_simps)
  then have "sgn r * (of_int m * 2 powi (ulp_exp r - 52)) = r"
    by (simp add: sgn_if abs_if split: if_splits)
  then show ?thesis
    using round_double_eq[OF assms(1)] assms(2) by (simp add: m v not_le)
qed


lemma round_double_of_int:
  assumes "\<bar>n\<bar> < 2 ^ 53"
  shows "round_double (of_int n) = Fin (of_int n)"
proof (cases "n = 0")
  case True
  then show ?thesis by (simp add: round_double_def)
next
  case False
  define a :: rat where "a = \<bar>of_int n\<bar>"
  have a_int: "a = of_int \<bar>n\<bar>" by (simp add: a_def)
  have "1 \<le> \<bar>n\<bar>" using False by simp
  then have "(of_int 1 :: rat) \<le> of_int \<bar>n\<bar>" by (simp only: of_int_le_iff)
  then have a1: "1 \<le> a" by (simp add: a_int)
  then have a0: "0 < a" by simp
  have "(of_int \<bar>n\<bar> :: rat) < of_int (2 ^ 53)" using assms by (simp only: of_int_less_iff)
  then have a53: "a < 2 powi 53" by (simp add: a_int)
  define e where "e = flog2 a"
  note b = flog2_bounds[OF a0, folded e_def]
  have "(2::rat) powi 0 < 2 powi (e + 1)" using a1 b(2) by simp
  then have e0: "0 \<le> e" by (simp only: pow2_less_iff)
  have "(2::rat) powi e < 2 powi 53" using b(1) a53 by simp
  then have e52: "e \<le> 52" by (simp only: pow2_less_iff)
  have ue: "ulp_exp (of_int n) = e" using e0 by (simp add: ulp_exp_def e_def a_def)
  have "(2::rat) powi (52 - e) * 2 powi (e - 52) = 2 powi ((52 - e) + (e - 52))"
    by (rule power_int_add[symmetric]) simp
  also have "\<dots> = 1" by simp
  finally have inv: "(2::rat) powi (52 - e) * 2 powi (e - 52) = 1" .
  have "a / 2 powi (e - 52) = a * (2 powi (52 - e) * 2 powi (e - 52)) / 2 powi (e - 52)"
    by (simp only: inv mult_1_right)
  also have "\<dots> = a * 2 powi (52 - e)" by simp
  also have "(2::rat) powi (52 - e) = of_int (2 ^ nat (52 - e))"
    using e52 by (simp add: power_int_nonneg_exp)
  finally have "a / 2 powi (e - 52) = of_int (\<bar>n\<bar> * 2 ^ nat (52 - e))"
    by (simp add: a_int)
  then have q: "\<bar>rat_of_int n\<bar> / 2 powi (ulp_exp (of_int n) - 52)
                  = of_int (\<bar>n\<bar> * 2 ^ nat (52 - e))"
    by (simp add: ue a_def)
  have "a < 2 powi 1024"
  proof -
    have "(2::rat) powi 53 < 2 powi 1024" by (simp only: pow2_less_iff)
    with a53 show ?thesis by simp
  qed
  then have lt: "\<bar>rat_of_int n\<bar> < 2 powi 1024" by (simp add: a_def)
  have nz: "rat_of_int n \<noteq> 0" using False by simp
  show ?thesis using nz lt q by (rule round_double_fixed)
qed





lemma floor_rat_numeral:
  "\<lfloor>(numeral a :: rat) / numeral b\<rfloor> = numeral a div numeral b"
  using floor_divide_of_int_eq[of "numeral a" "numeral b", where ?'a = rat] by simp

section \<open>Evaluating the parsers\<close>

lemmas parse_defs = float_of_string_def float_strip_def float_space_def parse_sign_def
  parse_decimal_def parse_exponent_def parse_inf_nan_def digits_val_def digit_val_def
  is_digit_def code_point_def ascii_lower_def ascii_lower_char_def

lemmas string_defs = strip_def py_isspace_def code_point_def replace_char_def cleaned_text_def
  remove_control_def is_control_def

lemma lower_char_n:
  assumes "lower_char c = CHR ''n''"
  shows "c = CHR ''n'' \<or> c = CHR ''N''"
proof (cases "is_upper c")
  case False
  with assms show ?thesis by (simp add: lower_char_def)
next
  case True
  then have b: "(of_char c :: nat) + 32 < 256"
    by (auto simp: is_upper_def code_point_def)
  from True assms have "char_of (of_char c + 32 :: nat) = CHR ''n''"
    by (simp add: lower_char_def code_point_def)
  then have "(of_char (char_of (of_char c + 32 :: nat)) :: nat) = of_char CHR ''n''" by simp
  then have "(of_char c :: nat) = 78" using b by simp
  moreover have "(of_char CHR ''N'' :: nat) = 78" by simp
  ultimately have "(of_char c :: nat) = of_char CHR ''N''" by (simp only:)
  then have "c = CHR ''N''" by (simp only: of_char_eq_iff)
  then show ?thesis by simp
qed

lemma ascii_lower_char_simps:
  "ascii_lower_char CHR ''N'' = CHR ''n''" "ascii_lower_char CHR ''n'' = CHR ''n''"
  by code_simp+

lemma dropWhile_snoc_keep:
  "\<not> P c \<Longrightarrow> \<exists>ys. dropWhile P (zs @ [c]) = ys @ [c]"
  by (induction zs) auto

lemma float_strip_Cons:
  assumes "\<not> float_space c"
  shows "\<exists>w. float_strip (c # xs) = c # w"
proof -
  obtain ys where "dropWhile float_space (rev xs @ [c]) = ys @ [c]"
    using dropWhile_snoc_keep[of float_space c "rev xs"] assms by blast
  then show ?thesis using assms by (simp add: float_strip_def)
qed

text \<open>A literal that starts with the letter n is NaN or no float at all.\<close>

lemma float_of_string_n:
  assumes "c = CHR ''n'' \<or> c = CHR ''N''"
  shows "float_of_string (c # cs) = None \<or> float_of_string (c # cs) = Some NaN"
proof (cases "drop_underscores c cs")
  case None
  with assms show ?thesis by (auto simp: float_of_string_def)
next
  case (Some t)
  have ns: "\<not> float_space c" using assms by (auto simp: float_space_def code_point_def)
  obtain w where w: "float_strip (c # t) = c # w" using float_strip_Cons[OF ns] by blast
  have d: "parse_decimal (c # w) = None"
    using assms by (auto simp: parse_decimal_def is_digit_def code_point_def)
  have s: "parse_sign (c # w) = (False, c # w)"
    using assms by (auto simp: parse_sign_def)
  have l: "ascii_lower (c # w) = CHR ''n'' # ascii_lower w"
    using assms by (auto simp: ascii_lower_def ascii_lower_char_simps)
  have i: "parse_inf_nan (c # w) = None \<or> parse_inf_nan (c # w) = Some NaN"
    by (simp add: parse_inf_nan_def l)
  have du: "drop_underscores (CHR 0x00) (c # cs) = Some (c # t)"
    using assms Some by auto
  have "float_of_string (c # cs) = parse_inf_nan (c # w)"
    unfolding float_of_string_def du by (simp add: w s d option.map_id)
  with i show ?thesis by simp
qed

lemma numeric_nulls_not_finite:
  assumes "lower t \<in> set numeric_nulls"
  shows "float_of_string t \<noteq> Some (Fin r)"
proof (cases t)
  case Nil
  then show ?thesis by (simp add: parse_defs)
next
  case (Cons c cs)
  with assms have "lower_char c = CHR ''n''"
    by (auto simp: numeric_nulls_def lower_def)
  then have "c = CHR ''n'' \<or> c = CHR ''N''" by (rule lower_char_n)
  from float_of_string_n[OF this, of cs] show ?thesis by (auto simp: Cons)
qed

lemma float_of_string_12_9:
  "float_of_string ''12.9'' = Some (Fin (7262054399134925 / 562949953421312))"
proof -
  have "round_double (129 / 10) = Fin (7262054399134925 / 562949953421312)"
    by (subst round_double_at[where e = 3])
       (simp_all add: round_half_even_def Let_def floor_rat_numeral)
  then show ?thesis by (simp add: parse_defs)
qed

lemma float_of_string_neg_12_9:
  "float_of_string ''-12.9'' = Some (Fin (- (7262054399134925 / 562949953421312)))"
proof -
  have "round_double (- (129 / 10)) = Fin (- (7262054399134925 / 562949953421312))"
    by (subst round_double_at[where e = 3])
       (simp_all add: round_half_even_def Let_def floor_rat_numeral)
  then show ?thesis by (simp add: parse_defs)
qed

lemma cleaned_text_Nil: "cleaned_text [] = []"
  by (simp add: string_defs)

lemma clean_numeric_int_finite:
  assumes "float_of_string (cleaned_text s) = Some (Fin r)"
  shows "clean_numeric (Some (VStr s)) KInt = Inr (Some (NInt (trunc r)))"
proof -
  have "s \<noteq> []"
  proof
    assume "s = []"
    with assms show False by (simp add: cleaned_text_Nil parse_defs)
  qed
  moreover have "lower (cleaned_text s) \<notin> set numeric_nulls"
    using numeric_nulls_not_finite[of "cleaned_text s" r] assms by blast
  ultimately show ?thesis
    using assms by (simp add: clean_numeric_def numeric_of_text_def Let_def)
qed

section \<open>The field normalizers\<close>

subsection \<open>Exceptions (C4)\<close>

text \<open>
  C4 says that no field normalizer lets an exception reach its caller. \<open>clean_numeric\<close>
  catches \<open>ValueError\<close> and \<open>TypeError\<close> only. The text \<open>inf\<close> is not one of the null
  spellings and \<open>float\<close> reads it as infinity; \<open>int\<close> of an infinity raises
  \<open>OverflowError\<close>, which leaves \<open>clean_numeric\<close> when an integer is asked for.
\<close>

theorem clean_numeric_inf_raises:
  "clean_numeric (Some (VStr ''inf'')) KInt = Inl OverflowError"
  by code_simp

lemma clean_year_inf_raises: "clean_year (Some (VStr ''inf'')) = Inl OverflowError"
  by code_simp

subsection \<open>Null spellings (C5)\<close>

text \<open>
  C5 as stated: every string whose trimmed form equals one of the null spellings without
  regard to case is cleaned to none. The code compares the trimmed string with a fixed list
  of six spellings, so \<open>NONE\<close>, which differs from \<open>None\<close> by case only, is kept.
\<close>

theorem clean_string_NONE_kept:
  "lower (strip ''NONE'') = lower ''None''
   \<and> clean_string (Some (VStr ''NONE'')) = Inr (Some ''NONE'')"
  by code_simp

text \<open>
  C5 as amended: every string whose trimmed form is exactly one of the six listed spellings
  (the empty string, \<open>NULL\<close>, \<open>null\<close>, \<open>None\<close>, \<open>N/A\<close>, \<open>n/a\<close>) is cleaned to none.
\<close>

theorem clean_string_null_spellings:
  "strip s \<in> {'''', ''NULL'', ''null'', ''None'', ''N/A'', ''n/a''}
   \<Longrightarrow> clean_string (Some (VStr s)) = Inr None"
  by (simp add: null_strings_def)

text \<open>A null spelling between blanks.\<close>

theorem clean_string_null_spellings_witness:
  "strip '' N/A '' \<in> {'''', ''NULL'', ''null'', ''None'', ''N/A'', ''n/a''}
   \<and> clean_string (Some (VStr '' N/A '')) = Inr None"
proof -
  have h: "strip '' N/A '' \<in> {'''', ''NULL'', ''null'', ''None'', ''N/A'', ''n/a''}"
    by code_simp
  show ?thesis using h clean_string_null_spellings[OF h] by simp
qed

subsection \<open>Blank results (C6)\<close>

text \<open>
  C6 says that a result of \<open>clean_string\<close> is never empty and never white space only.
  The white space is stripped before the control characters are removed, and not again
  afterwards: a blank between two NUL characters survives as the whole result.
\<close>

theorem clean_string_blank_result:
  "clean_string (Some (VStr [CHR 0x00, CHR '' '', CHR 0x00])) = Inr (Some '' '')"
  by code_simp

text \<open>The other half of C6 holds: the result is never the empty string.\<close>

lemma clean_string_never_empty: "clean_string v \<noteq> Inr (Some [])"
  by (cases v rule: clean_string.cases) (simp_all add: Let_def)

subsection \<open>Integers from decimal text (C7)\<close>

text \<open>
  C7 as stated: for a text that parses to a finite float, \<open>clean_numeric\<close> with kind
  integer returns the floor of the float, so \<open>-12.9\<close> gives \<open>-13\<close>. The float read
  from \<open>-12.9\<close> has floor \<open>-13\<close>, but the code returns \<open>-12\<close>: \<open>int\<close> drops the
  fraction.
\<close>

theorem clean_numeric_int_negative:
  "float_of_string ''-12.9'' = Some (Fin (- (7262054399134925 / 562949953421312)))
   \<and> \<lfloor>- (7262054399134925 / 562949953421312) :: rat\<rfloor> = - 13
   \<and> clean_numeric (Some (VStr ''-12.9'')) KInt = Inr (Some (NInt (- 12)))"
proof -
  have t: "cleaned_text ''-12.9'' = ''-12.9''" by (simp add: string_defs)
  have f: "\<lfloor>- (7262054399134925 / 562949953421312) :: rat\<rfloor> = - 13"
    by (simp add: floor_eq_iff)
  have l: "lower ''-12.9'' \<notin> set numeric_nulls" by code_simp
  have c: "\<lceil>- (7262054399134925 / 562949953421312) :: rat\<rceil> = - 12"
    by (simp add: ceiling_eq_iff)
  show ?thesis
    by (simp add: clean_numeric_def numeric_of_text_def t l float_of_string_neg_12_9 trunc_def f c)
qed

text \<open>
  C7 as amended: for every text that, once the symbols are stripped, parses to a finite
  float, \<open>clean_numeric\<close> with kind integer returns that float truncated toward zero: its
  floor when it is not negative, its ceiling when it is negative (\<open>12.9\<close> gives \<open>12\<close>,
  \<open>-12.9\<close> gives \<open>-12\<close>).
\<close>

theorem clean_numeric_int_truncates:
  assumes "float_of_string (cleaned_text s) = Some (Fin r)"
  shows "clean_numeric (Some (VStr s)) KInt
           = Inr (Some (NInt (if 0 \<le> r then \<lfloor>r\<rfloor> else \<lceil>r\<rceil>)))"
  using clean_numeric_int_finite[OF assms] by (simp add: trunc_def)

text \<open>The example of C7: \<open>12.9\<close> gives \<open>12\<close>.\<close>

theorem clean_numeric_int_truncates_witness:
  "float_of_string (cleaned_text ''12.9'') = Some (Fin (7262054399134925 / 562949953421312))
   \<and> clean_numeric (Some (VStr ''12.9'')) KInt = Inr (Some (NInt 12))"
proof -
  have t: "cleaned_text ''12.9'' = ''12.9''" by (simp add: string_defs)
  have h: "float_of_string (cleaned_text ''12.9'')
             = Some (Fin (7262054399134925 / 562949953421312))"
    by (simp only: t float_of_string_12_9)
  show ?thesis using h clean_numeric_int_truncates[OF h] by (simp add: floor_rat_numeral)
qed

subsection \<open>Coordinates (C8)\<close>

lemma float_of_string_small:
  "float_of_string ''45.0'' = Some (Fin 45)"
  "float_of_string ''200.0'' = Some (Fin 200)"
  "float_of_string ''100'' = Some (Fin 100)"
  using round_double_of_int[of 45] round_double_of_int[of 200] round_double_of_int[of 100]
  by (simp_all add: parse_defs)

lemma float_of_string_Nil: "float_of_string [] = None"
  by (simp add: parse_defs)

lemma float_if_string:
  "float_if (Some (VStr s)) =
     (if s = [] then Inr None
      else case float_of_string s of None \<Rightarrow> Inl ValueError | Some f \<Rightarrow> Inr (Some f))"
  by (simp add: float_if_def split: option.splits)

text \<open>
  C8: on a pair of cells read from a file, \<open>validate_coordinates\<close> returns a pair of
  floats only when the latitude cell parses to it within \<open>[-90, 90]\<close> and the longitude
  cell within \<open>[-180, 180]\<close>; as soon as one cell is missing, empty, unparsable or out of
  range it returns \<open>(None, None)\<close>; and when both cells are good it returns their values.
\<close>

theorem validate_coordinates_all_or_nothing:
  "(validate_coordinates (map_option VStr lat) (map_option VStr lng) = Inr (Some x, Some y)
      \<longrightarrow> parses_within lat (- 90) 90 x \<and> parses_within lng (- 180) 180 y)
   \<and> ((\<forall>a. \<not> parses_within lat (- 90) 90 a) \<or> (\<forall>b. \<not> parses_within lng (- 180) 180 b)
      \<longrightarrow> validate_coordinates (map_option VStr lat) (map_option VStr lng) = Inr (None, None))
   \<and> (parses_within lat (- 90) 90 x \<and> parses_within lng (- 180) 180 y
      \<longrightarrow> validate_coordinates (map_option VStr lat) (map_option VStr lng) = Inr (Some x, Some y))"
proof (cases lat)
  case None
  then show ?thesis
    by (simp add: validate_coordinates_def coordinates_checked_def float_if_def parses_within_def
             split: option.splits sum.splits)
next
  case lat: (Some a)
  show ?thesis
  proof (cases lng)
    case None
    then show ?thesis
      by (simp add: lat validate_coordinates_def coordinates_checked_def float_if_string
               float_if_def[of None] parses_within_def split: option.splits sum.splits)
  next
    case (Some b)
    then show ?thesis
      by (auto simp add: lat validate_coordinates_def coordinates_checked_def float_if_string
               parses_within_def float_of_string_Nil split: option.splits sum.splits)
  qed
qed

text \<open>
  The example of C8, \<open>("45.0", "200.0")\<close>, is rejected as a whole; \<open>("45.0", "100")\<close>
  is accepted.
\<close>

theorem validate_coordinates_all_or_nothing_witness:
  "validate_coordinates (Some (VStr ''45.0'')) (Some (VStr ''200.0'')) = Inr (None, None)
   \<and> validate_coordinates (Some (VStr ''45.0'')) (Some (VStr ''100'')) = Inr (Some (Fin 45), Some (Fin 100))"
proof -
  have h1: "(\<forall>a. \<not> parses_within (Some ''45.0'') (- 90) 90 a) \<or> (\<forall>b. \<not> parses_within (Some ''200.0'') (- 180) 180 b)"
    by (simp add: parses_within_def float_of_string_small in_range_def)
  have h2: "parses_within (Some ''45.0'') (- 90) 90 (Fin 45) \<and> parses_within (Some ''100'') (- 180) 180 (Fin 100)"
    by (simp add: parses_within_def float_of_string_small in_range_def)
  show ?thesis
    using h1 h2 validate_coordinates_all_or_nothing[of "Some ''45.0''" "Some ''200.0''"] validate_coordinates_all_or_nothing[of "Some ''45.0''" "Some ''100''" "Fin 45" "Fin 100"]
    by simp
qed

section \<open>Column type inference (C2)\<close>

lemma round_double_not_NaN: "round_double r \<noteq> NaN"
  by (simp add: round_double_def Let_def)

lemma drop_underscores_keeps:
  "drop_underscores p s = Some t \<Longrightarrow> c \<in> set s \<Longrightarrow> c \<noteq> CHR ''_'' \<Longrightarrow> c \<in> set t"
proof (induction s arbitrary: p t)
  case Nil
  then show ?case by simp
next
  case (Cons a s)
  then show ?case by (auto split: if_splits)
qed

lemma dropWhile_keeps: "x \<in> set xs \<Longrightarrow> \<not> P x \<Longrightarrow> x \<in> set (dropWhile P xs)"
  by (induction xs) auto

lemma float_strip_keeps: "x \<in> set s \<Longrightarrow> \<not> float_space x \<Longrightarrow> x \<in> set (float_strip s)"
  by (simp add: float_strip_def dropWhile_keeps)

lemma parse_sign_keeps:
  "parse_sign s = (neg, body) \<Longrightarrow> CHR ''.'' \<in> set s \<Longrightarrow> CHR ''.'' \<in> set body"
  by (cases s) (auto simp: parse_sign_def split: if_splits)

lemma ascii_lower_char_dot: "ascii_lower_char CHR ''.'' = CHR ''.''"
  by code_simp

lemma parse_inf_nan_dot: "CHR ''.'' \<in> set body \<Longrightarrow> parse_inf_nan body \<noteq> Some NaN"
proof
  assume d: "CHR ''.'' \<in> set body" and "parse_inf_nan body = Some NaN"
  then have "ascii_lower body = ''nan''" by (simp add: parse_inf_nan_def split: if_splits)
  moreover have "ascii_lower_char CHR ''.'' \<in> set (ascii_lower body)"
    using d by (simp add: ascii_lower_def)
  ultimately show False by (simp add: ascii_lower_char_dot)
qed

lemma dot_not_NaN:
  assumes "CHR ''.'' \<in> set v"
  shows "float_of_string v \<noteq> Some NaN"
proof (cases "drop_underscores (CHR 0x00) v")
  case None
  then show ?thesis by (simp add: float_of_string_def)
next
  case (Some t)
  obtain neg body where pb: "parse_sign (float_strip t) = (neg, body)" by force
  have "CHR ''.'' \<in> set t" using drop_underscores_keeps[OF Some assms] by simp
  then have "CHR ''.'' \<in> set (float_strip t)"
    by (rule float_strip_keeps) (simp add: float_space_def code_point_def)
  then have "CHR ''.'' \<in> set body" by (rule parse_sign_keeps[OF pb])
  then have "parse_inf_nan body \<noteq> Some NaN" by (rule parse_inf_nan_dot)
  then have m: "map_option (if neg then fneg else id) (parse_inf_nan body) \<noteq> Some NaN"
  proof (cases "parse_inf_nan body")
    case None
    then show ?thesis by simp
  next
    case (Some x)
    assume "parse_inf_nan body \<noteq> Some NaN"
    with Some show ?thesis by (cases x) simp_all
  qed
  show ?thesis
  proof (cases "parse_decimal body")
    case None
    with m show ?thesis by (simp add: float_of_string_def Some pb)
  next
    case (Some r)
    then show ?thesis
      using round_double_not_NaN by (simp add: float_of_string_def \<open>drop_underscores (CHR 0x00) v = Some t\<close> pb)
  qed
qed

lemma numeric_scan_spec:
  assumes "\<forall>v \<in> set vs. \<not> dotless_infinity v"
  shows "numeric_scan vs h =
           (if list_all is_number vs then Inr (h \<or> list_ex is_decimal vs) else Inl ValueError)"
  using assms
proof (induction vs arbitrary: h)
  case Nil
  then show ?case by simp
next
  case (Cons v vs)
  then have IH: "\<And>h. numeric_scan vs h =
           (if list_all is_number vs then Inr (h \<or> list_ex is_decimal vs) else Inl ValueError)"
    and nd: "\<not> dotless_infinity v" by simp_all
  show ?case
  proof (cases "float_of_string v")
    case None
    then have "\<not> is_number v" by (simp add: is_number_def)
    then show ?thesis using None by (simp add: bind_err_def)
  next
    case (Some f)
    show ?thesis
    proof (cases "CHR ''.'' \<in> set v")
      case True
      then have "f \<noteq> NaN" using dot_not_NaN[OF True] Some by simp
      then have "is_number v" using Some by (simp add: is_number_def)
      moreover have "is_decimal v" using True by (simp add: is_decimal_def)
      ultimately show ?thesis using True Some by (simp add: bind_err_def IH)
    next
      case False
      show ?thesis
      proof (cases f)
        case (Fin r)
        then have "is_number v" using Some by (simp add: is_number_def)
        moreover have "is_decimal v \<longleftrightarrow> r \<noteq> of_int (trunc r)"
          using False Some Fin by (simp add: is_decimal_def)
        ultimately show ?thesis using False Some Fin by (simp add: bind_err_def IH)
      next
        case NaN
        then have "\<not> is_number v" using Some by (simp add: is_number_def)
        then show ?thesis using False Some NaN by (simp add: bind_err_def)
      next
        case PInf
        then show ?thesis using False Some nd by (simp add: dotless_infinity_def)
      next
        case NInf
        then show ?thesis using False Some nd by (simp add: dotless_infinity_def)
      qed
    qed
  qed
qed

text \<open>
  C2 as stated: when every one of the first 20 non-empty values parses as a float the
  column is \<open>DECIMAL(15,4)\<close> or \<open>INTEGER\<close>. The value \<open>nan\<close> parses as a float, but
  \<open>int\<close> of NaN raises \<open>ValueError\<close> inside the same \<open>try\<close>, so the column is treated
  as text.
\<close>

theorem guess_column_type_nan: "float_of_string ''nan'' = Some NaN \<and> guess_column_type [''nan''] = Inr ''VARCHAR(100)''"
  by code_simp

text \<open>
  C2 as amended: \<open>TEXT\<close> when no non-empty value exists; otherwise, when none of the
  first 20 non-empty values is a literal without a point that reads as an infinity: if
  every one of these 20 parses to a float other than NaN, \<open>DECIMAL(15,4)\<close> when one of
  them holds a point or has a value different from its truncation and \<open>INTEGER\<close>
  otherwise; and if one of them fails to parse or parses to NaN, the bucket of the greatest
  length among the first 50 non-empty values.
\<close>

theorem guess_column_type_follows_spec:
  assumes "\<forall>v \<in> set (take 20 (non_empty_values values)). \<not> dotless_infinity v"
  shows "guess_column_type values = Inr (column_type_spec values)"
proof -
  define nev where "nev = non_empty_values values"
  note scan = numeric_scan_spec[OF assms, of False, folded nev_def]
  show ?thesis
  proof (cases "nev = []")
    case True
    then show ?thesis
      by (simp add: guess_column_type_def column_type_spec_def nev_def[symmetric])
  next
    case False
    show ?thesis
    proof (cases "list_all is_number (take 20 nev)")
      case True
      then have "numeric_scan (take 20 nev) False = Inr (list_ex is_decimal (take 20 nev))"
        using scan by simp
      then show ?thesis using False True
        by (simp add: guess_column_type_def column_type_spec_def nev_def[symmetric])
    next
      case nn: False
      then have "numeric_scan (take 20 nev) False = Inl ValueError"
        using scan by simp
      then show ?thesis using False nn
        by (simp add: guess_column_type_def column_type_spec_def nev_def[symmetric])
    qed
  qed
qed

lemma float_of_string_digits:
  "float_of_string ''1'' = Some (Fin 1)"
  "float_of_string ''2'' = Some (Fin 2)"
  "float_of_string ''3'' = Some (Fin 3)"
  "float_of_string ''3.5'' = Some (Fin (7 / 2))"
proof -
  have "round_double (7 / 2) = Fin (7 / 2)"
    by (rule round_double_exact[where e = 1 and m = "7 * 2 ^ 50"]) simp_all
  then show "float_of_string ''3.5'' = Some (Fin (7 / 2))" by (simp add: parse_defs)
qed (use round_double_of_int[of 1] round_double_of_int[of 2] round_double_of_int[of 3]
      in \<open>simp_all add: parse_defs\<close>)

text \<open>The two examples of C2.\<close>

theorem guess_column_type_follows_spec_witness:
  "guess_column_type [''1'', ''2'', ''3.5''] = Inr ''DECIMAL(15,4)''
   \<and> guess_column_type [''1'', ''2'', ''3''] = Inr ''INTEGER''"
proof -
  have n1: "non_empty_values [''1'', ''2'', ''3.5''] = [''1'', ''2'', ''3.5'']"
    and n2: "non_empty_values [''1'', ''2'', ''3''] = [''1'', ''2'', ''3'']"
    by (simp_all add: non_empty_values_def string_defs)
  have h1: "\<forall>v \<in> set (take 20 (non_empty_values [''1'', ''2'', ''3.5''])). \<not> dotless_infinity v"
    by (simp add: n1 dotless_infinity_def float_of_string_digits)
  have h2: "\<forall>v \<in> set (take 20 (non_empty_values [''1'', ''2'', ''3''])). \<not> dotless_infinity v"
    by (simp add: n2 dotless_infinity_def float_of_string_digits)
  have s1: "column_type_spec [''1'', ''2'', ''3.5''] = ''DECIMAL(15,4)''"
    by (simp add: column_type_spec_def n1 is_number_def is_decimal_def float_of_string_digits)
  have s2: "column_type_spec [''1'', ''2'', ''3''] = ''INTEGER''"
    by (simp add: column_type_spec_def n2 is_number_def is_decimal_def float_of_string_digits
          trunc_def)
  show ?thesis
    using guess_column_type_follows_spec[OF h1] guess_column_type_follows_spec[OF h2]
    by (simp only: s1 s2)
qed

section \<open>The dataset cleaners\<close>

subsection \<open>Cells read from a file\<close>

lemma py_or_cells:
  "\<exists>c. py_or (map_option VStr a) (map_option VStr b) = map_option VStr c"
  by (cases "truthy (map_option VStr a)") (auto simp: py_or_def)

lemma py_or_raw: "\<exists>c. py_or (raw r a) (raw r b) = map_option VStr c"
  unfolding raw_def by (rule py_or_cells)

lemma py_or_raw3: "\<exists>c. py_or (py_or (raw r a) (raw r b)) (raw r d) = map_option VStr c"
proof -
  obtain c where "py_or (raw r a) (raw r b) = map_option VStr c" using py_or_raw by blast
  then show ?thesis using py_or_cells[of c "r d"] by (simp add: raw_def)
qed

lemma py_or_raw4:
  "\<exists>c. py_or (py_or (py_or (raw r a) (raw r b)) (raw r d)) (raw r e) = map_option VStr c"
proof -
  obtain c where "py_or (py_or (raw r a) (raw r b)) (raw r d) = map_option VStr c"
    using py_or_raw3 by blast
  then show ?thesis using py_or_cells[of c "r e"] by (simp add: raw_def)
qed

lemma clean_string_cell: "\<exists>x. clean_string (map_option VStr c) = Inr x"
  by (cases c) (simp_all add: Let_def)

lemma clean_string_None: "clean_string None = Inr None"
  by simp

lemma clean_string_empty: "clean_string (Some (VStr [])) = Inr None"
  by simp

lemma except_value_type_float:
  "\<exists>x. except_value_type (convert (py_float (VStr t)) KFloat) = Inr x"
  by (cases "float_of_string t") simp_all

lemma clean_numeric_float_cell: "\<exists>x. clean_numeric (map_option VStr c) KFloat = Inr x"
proof (cases c)
  case None
  then show ?thesis by (simp add: clean_numeric_def)
next
  case (Some s)
  then show ?thesis
    using except_value_type_float[of "cleaned_text s"]
    by (auto simp: clean_numeric_def numeric_of_text_def Let_def)
qed

lemma clean_numeric_float_finite:
  assumes "float_of_string (cleaned_text s) = Some (Fin x)"
  shows "clean_numeric (Some (VStr s)) KFloat = Inr (Some (NFloat (Fin x)))"
proof -
  have "s \<noteq> []"
  proof
    assume "s = []"
    with assms show False by (simp add: cleaned_text_Nil parse_defs)
  qed
  moreover have "lower (cleaned_text s) \<notin> set numeric_nulls"
    using numeric_nulls_not_finite[of "cleaned_text s" x] assms by blast
  ultimately show ?thesis
    using assms by (simp add: clean_numeric_def numeric_of_text_def Let_def)
qed

lemma clean_numeric_empty: "clean_numeric (Some (VStr [])) dt = Inr None"
  by (simp add: clean_numeric_def)

lemma py_or_empty:
  "b = None \<or> b = Some (VStr []) \<Longrightarrow> clean_string (py_or (Some (VStr [])) b) = Inr None"
  "b = None \<or> b = Some (VStr []) \<Longrightarrow> clean_numeric (py_or (Some (VStr [])) b) dt = Inr None"
  by (auto simp: py_or_def clean_numeric_def)

lemma clean_year_truthy: "clean_year v = Inr (Some y) \<Longrightarrow> num_truthy y"
  by (auto simp: clean_year_def split: sum.splits option.splits if_splits)


lemma put_str_other: "k' \<noteq> k \<Longrightarrow> put_str k s m k' = m k'"
  by (simp add: put_str_def split: option.splits)

lemma put_str_apply:
  "put_str k s m k' =
     (if k' = k then (case s of None \<Rightarrow> m k | Some t \<Rightarrow> if t \<noteq> [] then Some (VStr t) else m k)
      else m k')"
  by (simp add: put_str_def split: option.splits)

lemma put_num_apply:
  "put_num k n m k' =
     (if k' = k then (case n of None \<Rightarrow> m k
                      | Some x \<Rightarrow> if num_truthy x then Some (VNum x) else m k)
      else m k')"
  by (simp add: put_num_def split: option.splits)

lemma put_positive_apply:
  "put_positive k n m k' =
     (if k' = k then (case n of None \<Rightarrow> m k
                      | Some x \<Rightarrow> if num_truthy x \<and> num_lt (NInt 0) x then Some (VNum x) else m k)
      else m k')"
  by (simp add: put_positive_def split: option.splits)

subsection \<open>Worked examples\<close>

lemma float_of_string_examples:
  "float_of_string ''2020'' = Some (Fin 2020)"
  "float_of_string ''2021'' = Some (Fin 2021)"
  "float_of_string ''-5'' = Some (Fin (- 5))"
  "float_of_string ''0'' = Some (Fin 0)"
  "float_of_string ''4'' = Some (Fin 4)"
  "float_of_string ''-122'' = Some (Fin (- 122))"
  using round_double_of_int[of 2020] round_double_of_int[of 2021] round_double_of_int[of "- 5"]
    round_double_of_int[of 0] round_double_of_int[of 4] round_double_of_int[of "- 122"]
  by (simp_all add: parse_defs)

lemma float_of_string_45_5: "float_of_string ''45.5'' = Some (Fin (91 / 2))"
proof -
  have "round_double (91 / 2) = Fin (91 / 2)"
    by (rule round_double_exact[where e = 5 and m = "91 * 2 ^ 46"]) simp_all
  then show ?thesis by (simp add: parse_defs)
qed

lemma clean_year_2020: "clean_year (Some (VStr ''2020'')) = Inr (Some (NInt 2020))"
proof -
  have "float_of_string (cleaned_text ''2020'') = Some (Fin 2020)"
    by (simp add: string_defs float_of_string_examples)
  from clean_numeric_int_finite[OF this] show ?thesis
    by (simp add: clean_year_def trunc_def num_le_def)
qed

lemma clean_year_2021: "clean_year (Some (VStr ''2021'')) = Inr (Some (NInt 2021))"
proof -
  have "float_of_string (cleaned_text ''2021'') = Some (Fin 2021)"
    by (simp add: string_defs float_of_string_examples)
  from clean_numeric_int_finite[OF this] show ?thesis
    by (simp add: clean_year_def trunc_def num_le_def)
qed

lemma standardize_make_tesla: "standardize_make (Some (VStr ''tesla'')) = Inr (Some ''Tesla'')"
  by code_simp

lemma clean_string_examples:
  "clean_string (Some (VStr ''Model 3'')) = Inr (Some ''Model 3'')"
  "clean_string (Some (VStr ''WA'')) = Inr (Some ''WA'')"
  "clean_string (Some (VStr ''US'')) = Inr (Some ''US'')"
  "clean_string (Some (VStr ''us'')) = Inr (Some ''us'')"
  by code_simp+

lemma validate_coordinates_example:
  "validate_coordinates (Some (VStr ''45.5'')) (Some (VStr ''-122''))
     = Inr (Some (Fin (91 / 2)), Some (Fin (- 122)))"
  by (simp add: validate_coordinates_def coordinates_checked_def float_if_string
        float_of_string_45_5 float_of_string_examples in_range_def)

subsection \<open>Sales values (C9)\<close>

text \<open>
  C9: for a row read from a file whose region and year are valid, a \<open>value\<close> cell that
  parses (once the symbols are stripped) to any finite number \<open>x\<close>, zero and negative
  numbers included, is kept: the row is emitted and the record holds \<open>value = x\<close>.
\<close>

theorem sales_value_retained:
  assumes "clean_string (py_or (raw r ''region'') (raw r ''country'')) = Inr (Some reg)"
    and "clean_year (raw r ''year'') = Inr (Some y)"
    and "r ''value'' = Some s"
    and "float_of_string (cleaned_text s) = Some (Fin x)"
  shows "\<exists>rec. clean_ev_sales_data [raw r] = Inr [rec]
               \<and> rec ''value'' = Some (VNum (NFloat (Fin x)))"
proof -
  have reg: "reg \<noteq> []" using assms(1) clean_string_never_empty by metis
  have y: "num_truthy y" using assms(2) by (rule clean_year_truthy)
  obtain pc where pc: "py_or (raw r ''parameter'') (raw r ''category'') = map_option VStr pc"
    using py_or_raw by blast
  obtain parameter where p: "clean_string (py_or (raw r ''parameter'') (raw r ''category'')) = Inr parameter"
    using clean_string_cell[of pc] pc by auto
  obtain unit where u: "clean_string (raw r ''unit'') = Inr unit"
    using clean_string_cell[of "r ''unit''"] by (auto simp: raw_def)
  obtain mode where m: "clean_string (raw r ''mode'') = Inr mode"
    using clean_string_cell[of "r ''mode''"] by (auto simp: raw_def)
  obtain powertrain where pt: "clean_string (raw r ''powertrain'') = Inr powertrain"
    using clean_string_cell[of "r ''powertrain''"] by (auto simp: raw_def)
  have v: "clean_numeric (raw r ''value'') KFloat = Inr (Some (NFloat (Fin x)))"
    using clean_numeric_float_finite[OF assms(4)] assms(3) by (simp add: raw_def)
  let ?rec = "sales_record reg y parameter (Some (NFloat (Fin x))) unit mode powertrain"
  have row: "clean_ev_sales_row (raw r) = Inr (Some ?rec)"
    unfolding clean_ev_sales_row_def
    by (simp only: assms(1,2) p u m pt v bind_err_def sum.case option.case reg y if_False not_True_eq_False)
  have val: "?rec ''value'' = Some (VNum (NFloat (Fin x)))"
    by (simp add: sales_record_def Let_def put_str_other)
  have "clean_ev_sales_data [raw r] = Inr [?rec]"
    by (simp add: clean_ev_sales_data_def row bind_err_def)
  with val show ?thesis by blast
qed

text \<open>The example of C9: \<open>value = "-5"\<close> is kept as \<open>-5.0\<close>.\<close>

theorem sales_value_retained_witness:
  "clean_string (py_or (raw [''region'' \<mapsto> ''US'', ''year'' \<mapsto> ''2020'', ''value'' \<mapsto> ''-5''] ''region'')
                       (raw [''region'' \<mapsto> ''US'', ''year'' \<mapsto> ''2020'', ''value'' \<mapsto> ''-5''] ''country''))
     = Inr (Some ''US'')
   \<and> clean_year (raw [''region'' \<mapsto> ''US'', ''year'' \<mapsto> ''2020'', ''value'' \<mapsto> ''-5''] ''year'')
     = Inr (Some (NInt 2020))
   \<and> float_of_string (cleaned_text ''-5'') = Some (Fin (- 5))
   \<and> (\<exists>rec. clean_ev_sales_data [raw [''region'' \<mapsto> ''US'', ''year'' \<mapsto> ''2020'', ''value'' \<mapsto> ''-5'']] = Inr [rec]
          \<and> rec ''value'' = Some (VNum (NFloat (Fin (- 5)))))"
proof -
  let ?r = "[''region'' \<mapsto> ''US'', ''year'' \<mapsto> ''2020'', ''value'' \<mapsto> ''-5'']"
  have h1: "clean_string (py_or (raw ?r ''region'') (raw ?r ''country'')) = Inr (Some ''US'')"
    by (simp add: raw_def py_or_def string_defs null_strings_def)
  have h2: "clean_year (raw ?r ''year'') = Inr (Some (NInt 2020))"
    by (simp add: raw_def clean_year_2020)
  have h3: "?r ''value'' = Some ''-5''" by simp
  have h4: "float_of_string (cleaned_text ''-5'') = Some (Fin (- 5))"
    by (simp add: string_defs float_of_string_examples)
  from sales_value_retained[OF h1 h2 h3 h4] h1 h2 h4 show ?thesis by blast
qed

subsection \<open>The fast-DC flag (C10)\<close>


lemma fast_dc_flag_empty: "fast_dc_flag (Some (VStr [])) = Some (VBool False)"
  by (simp add: fast_dc_flag_def upper_def)

lemma station_record_lookup:
  "station_record lat lng c city p ports pc f cn nw st ''latitude'' = Some (VNum (NFloat lat))"
  "station_record lat lng c city p ports pc f cn nw st ''longitude'' = Some (VNum (NFloat lng))"
  "station_record lat lng c city p ports pc f cn nw st ''country_code'' = Some (VStr (upper c))"
  "station_record lat lng c city p ports pc f cn nw st ''country'' = None"
  "station_record lat lng c city p ports pc f cn nw st ''city'' =
     (case city of None \<Rightarrow> None | Some t \<Rightarrow> if t \<noteq> [] then Some (VStr t) else None)"
  "station_record lat lng c city p ports pc f cn nw st ''power_kw'' =
     (case p of None \<Rightarrow> None
      | Some x \<Rightarrow> if num_truthy x \<and> num_lt (NInt 0) x then Some (VNum x) else None)"
  "station_record lat lng c city p ports pc f cn nw st ''power'' = None"
  "station_record lat lng c city p ports pc f cn nw st ''ports'' =
     (case ports of None \<Rightarrow> None
      | Some x \<Rightarrow> if num_truthy x \<and> num_lt (NInt 0) x then Some (VNum x) else None)"
  "station_record lat lng c city p ports pc f cn nw st ''power_class'' =
     (case pc of None \<Rightarrow> None | Some t \<Rightarrow> if t \<noteq> [] then Some (VStr t) else None)"
  "station_record lat lng c city p ports pc f cn nw st ''is_fast_dc'' = fast_dc_flag f"
  "station_record lat lng c city p ports pc f cn nw st ''connector_type'' =
     (case cn of None \<Rightarrow> None | Some t \<Rightarrow> if t \<noteq> [] then Some (VStr t) else None)"
  "station_record lat lng c city p ports pc f cn nw st ''network'' =
     (case nw of None \<Rightarrow> None | Some t \<Rightarrow> if t \<noteq> [] then Some (VStr t) else None)"
  "station_record lat lng c city p ports pc f cn nw st ''operator'' = None"
  "station_record lat lng c city p ports pc f cn nw st ''status'' =
     (case st of None \<Rightarrow> None | Some t \<Rightarrow> if t \<noteq> [] then Some (VStr t) else None)"
  by (simp_all add: station_record_def Let_def put_str_apply put_positive_apply
        split: option.splits)

lemma float_of_string_50: "float_of_string ''50'' = Some (Fin 50)"
  using round_double_of_int[of 50] by (simp add: parse_defs)

lemma clean_numeric_50:
  "clean_numeric (Some (VStr ''50'')) KFloat = Inr (Some (NFloat (Fin 50)))"
proof -
  have "float_of_string (cleaned_text ''50'') = Some (Fin 50)"
    by (simp add: string_defs float_of_string_50)
  then show ?thesis by (rule clean_numeric_float_finite)
qed

text \<open>
  C10 as stated: in a station row that passes the coordinate and country checks, an empty
  \<open>is_fast_dc\<close> cell gives \<open>is_fast_dc = False\<close>, whereas an empty cell of any other
  optional field leaves its key absent. Two of these fields are read from two columns each,
  \<open>row.get('power_kw') or row.get('power')\<close> and likewise \<open>network\<close> or \<open>operator\<close>.
  In the row below the \<open>power_kw\<close> cell is empty, and the record holds the key all the
  same, with the value of the \<open>power\<close> column.
\<close>

theorem station_alias_sets_key:
  "clean_charging_stations_row
     (raw [''latitude'' \<mapsto> ''45.5'', ''longitude'' \<mapsto> ''-122'', ''country_code'' \<mapsto> ''us'',
           ''is_fast_dc'' \<mapsto> '''', ''power_kw'' \<mapsto> '''', ''power'' \<mapsto> ''50''])
     = Inr (Some (station_record (Fin (91 / 2)) (Fin (- 122)) ''us'' None
                    (Some (NFloat (Fin 50))) None None (Some (VStr '''')) None None None))
   \<and> station_record (Fin (91 / 2)) (Fin (- 122)) ''us'' None (Some (NFloat (Fin 50))) None None
         (Some (VStr '''')) None None None ''is_fast_dc'' = Some (VBool False)
   \<and> station_record (Fin (91 / 2)) (Fin (- 122)) ''us'' None (Some (NFloat (Fin 50))) None None
         (Some (VStr '''')) None None None ''power_kw'' = Some (VNum (NFloat (Fin 50)))"
proof -
  let ?r = "[''latitude'' \<mapsto> ''45.5'', ''longitude'' \<mapsto> ''-122'', ''country_code'' \<mapsto> ''us'',
             ''is_fast_dc'' \<mapsto> '''', ''power_kw'' \<mapsto> '''', ''power'' \<mapsto> ''50'']"
  have cells: "raw ?r ''latitude'' = Some (VStr ''45.5'')"
    "raw ?r ''longitude'' = Some (VStr ''-122'')"
    "py_or (raw ?r ''country_code'') (raw ?r ''country'') = Some (VStr ''us'')"
    "raw ?r ''city'' = None"
    "py_or (raw ?r ''power_kw'') (raw ?r ''power'') = Some (VStr ''50'')"
    "raw ?r ''ports'' = None"
    "raw ?r ''power_class'' = None"
    "raw ?r ''connector_type'' = None"
    "py_or (raw ?r ''network'') (raw ?r ''operator'') = None"
    "raw ?r ''status'' = None"
    "raw ?r ''is_fast_dc'' = Some (VStr '''')"
    by (simp_all add: raw_def py_or_def)
  have n: "clean_numeric None KInt = Inr None" by (simp add: clean_numeric_def)
  have "clean_charging_stations_row (raw ?r)
        = Inr (Some (station_record (Fin (91 / 2)) (Fin (- 122)) ''us'' None
                       (Some (NFloat (Fin 50))) None None (Some (VStr '''')) None None None))"
    unfolding clean_charging_stations_row_def cells
    by (simp add: bind_err_def validate_coordinates_example clean_string_examples
          clean_string_None n clean_numeric_50 del: clean_string.simps)
  then show ?thesis by (simp add: station_record_lookup num_lt_def fast_dc_flag_empty)
qed

text \<open>
  Nor is every row that passes the two checks emitted: the \<open>ports\<close> cell is converted to
  an integer before the flag is looked at, and a cell that reads as an infinity raises the
  \<open>OverflowError\<close> of C4.
\<close>

lemma station_row_overflow:
  "clean_charging_stations_row
     (raw [''latitude'' \<mapsto> ''45.5'', ''longitude'' \<mapsto> ''-122'', ''country_code'' \<mapsto> ''us'',
           ''is_fast_dc'' \<mapsto> '''', ''ports'' \<mapsto> ''inf''])
   = Inl OverflowError"
proof -
  let ?r = "[''latitude'' \<mapsto> ''45.5'', ''longitude'' \<mapsto> ''-122'', ''country_code'' \<mapsto> ''us'',
             ''is_fast_dc'' \<mapsto> '''', ''ports'' \<mapsto> ''inf'']"
  have cells: "raw ?r ''latitude'' = Some (VStr ''45.5'')"
    "raw ?r ''longitude'' = Some (VStr ''-122'')"
    "py_or (raw ?r ''country_code'') (raw ?r ''country'') = Some (VStr ''us'')"
    "raw ?r ''city'' = None"
    "py_or (raw ?r ''power_kw'') (raw ?r ''power'') = None"
    "raw ?r ''ports'' = Some (VStr ''inf'')"
    by (simp_all add: raw_def py_or_def)
  have n: "clean_numeric None KFloat = Inr None" by (simp add: clean_numeric_def)
  have i: "clean_numeric (Some (VStr ''inf'')) KInt = Inl OverflowError" by code_simp
  show ?thesis
    unfolding clean_charging_stations_row_def cells
    by (simp add: bind_err_def validate_coordinates_example clean_string_examples
          clean_string_None n i del: clean_string.simps)
qed

text \<open>
  C10 as amended: a station row read from a file that passes the coordinate check and the
  country check, whose \<open>ports\<close> cell does not raise, and whose \<open>is_fast_dc\<close> cell is the
  empty string is emitted, and the record holds \<open>is_fast_dc = False\<close>: the key is set. In
  that record an empty cell of \<open>city\<close>, \<open>ports\<close>, \<open>power_class\<close>, \<open>connector_type\<close> or
  \<open>status\<close> leaves the key absent, and so does an empty cell of \<open>power_kw\<close> or \<open>network\<close>
  when the alternative column (\<open>power\<close>, \<open>operator\<close>) is empty or missing too.
\<close>

theorem station_fast_dc_empty:
  assumes "validate_coordinates (raw r ''latitude'') (raw r ''longitude'') = Inr (Some lat, Some lng)"
    and "clean_string (py_or (raw r ''country_code'') (raw r ''country'')) = Inr (Some c)"
    and "clean_numeric (raw r ''ports'') KInt = Inr ports"
    and "r ''is_fast_dc'' = Some ''''"
  shows "\<exists>rec. clean_charging_stations_row (raw r) = Inr (Some rec)
    \<and> rec ''is_fast_dc'' = Some (VBool False)
    \<and> (r ''city'' = Some '''' \<longrightarrow> rec ''city'' = None)
    \<and> (r ''ports'' = Some '''' \<longrightarrow> rec ''ports'' = None)
    \<and> (r ''power_class'' = Some '''' \<longrightarrow> rec ''power_class'' = None)
    \<and> (r ''connector_type'' = Some '''' \<longrightarrow> rec ''connector_type'' = None)
    \<and> (r ''status'' = Some '''' \<longrightarrow> rec ''status'' = None)
    \<and> (r ''power_kw'' = Some '''' \<and> r ''power'' \<in> {None, Some ''''} \<longrightarrow> rec ''power_kw'' = None)
    \<and> (r ''network'' = Some '''' \<and> r ''operator'' \<in> {None, Some ''''} \<longrightarrow> rec ''network'' = None)"
proof -
  have c: "c \<noteq> []" using assms(2) clean_string_never_empty by metis
  obtain city where city: "clean_string (raw r ''city'') = Inr city"
    using clean_string_cell[of "r ''city''"] by (auto simp: raw_def)
  obtain power_kw where
    power: "clean_numeric (py_or (raw r ''power_kw'') (raw r ''power'')) KFloat = Inr power_kw"
    using py_or_raw[of r "''power_kw''" "''power''"] clean_numeric_float_cell by metis
  obtain power_cls where pcl: "clean_string (raw r ''power_class'') = Inr power_cls"
    using clean_string_cell[of "r ''power_class''"] by (auto simp: raw_def)
  obtain connector where conn: "clean_string (raw r ''connector_type'') = Inr connector"
    using clean_string_cell[of "r ''connector_type''"] by (auto simp: raw_def)
  obtain network where
    net: "clean_string (py_or (raw r ''network'') (raw r ''operator'')) = Inr network"
    using py_or_raw[of r "''network''" "''operator''"] clean_string_cell by metis
  obtain status where st: "clean_string (raw r ''status'') = Inr status"
    using clean_string_cell[of "r ''status''"] by (auto simp: raw_def)
  define rec where "rec = station_record lat lng c city power_kw ports power_cls
                            (raw r ''is_fast_dc'') connector network status"
  have emitted: "clean_charging_stations_row (raw r) = Inr (Some rec)"
    unfolding clean_charging_stations_row_def assms(1,2,3) city power pcl conn net st rec_def
    using c by (simp add: bind_err_def)
  have f: "raw r ''is_fast_dc'' = Some (VStr [])" using assms(4) by (simp add: raw_def)
  note look = station_record_lookup[of lat lng c city power_kw ports power_cls
      "raw r ''is_fast_dc''" connector network status, folded rec_def]
  have 1: "rec ''is_fast_dc'' = Some (VBool False)"
    by (simp add: look f fast_dc_flag_empty)
  have 2: "rec ''city'' = None" if "r ''city'' = Some ''''"
    using city that by (auto simp: look raw_def)
  have 3: "rec ''ports'' = None" if "r ''ports'' = Some ''''"
    using assms(3) that by (auto simp: look raw_def clean_numeric_empty)
  have 4: "rec ''power_class'' = None" if "r ''power_class'' = Some ''''"
    using pcl that by (auto simp: look raw_def)
  have 5: "rec ''connector_type'' = None" if "r ''connector_type'' = Some ''''"
    using conn that by (auto simp: look raw_def)
  have 6: "rec ''status'' = None" if "r ''status'' = Some ''''"
    using st that by (auto simp: look raw_def)
  have 7: "rec ''power_kw'' = None" if "r ''power_kw'' = Some ''''" "r ''power'' \<in> {None, Some ''''}"
  proof -
    have "power_kw = None" using power that py_or_empty(2)[of "raw r ''power''" KFloat]
      by (auto simp: raw_def)
    then show ?thesis by (simp add: look)
  qed
  have 8: "rec ''network'' = None" if "r ''network'' = Some ''''" "r ''operator'' \<in> {None, Some ''''}"
  proof -
    have "network = None" using net that py_or_empty(1)[of "raw r ''operator''"]
      by (auto simp: raw_def)
    then show ?thesis by (simp add: look)
  qed
  from emitted 1 2 3 4 5 6 7 8 show ?thesis by blast
qed

text \<open>A row that passes the coordinate and country checks, with two empty cells.\<close>

theorem station_fast_dc_empty_witness:
  "validate_coordinates
     (raw [''latitude'' \<mapsto> ''45.5'', ''longitude'' \<mapsto> ''-122'', ''country_code'' \<mapsto> ''us'',
           ''is_fast_dc'' \<mapsto> '''', ''city'' \<mapsto> ''''] ''latitude'')
     (raw [''latitude'' \<mapsto> ''45.5'', ''longitude'' \<mapsto> ''-122'', ''country_code'' \<mapsto> ''us'',
           ''is_fast_dc'' \<mapsto> '''', ''city'' \<mapsto> ''''] ''longitude'')
     = Inr (Some (Fin (91 / 2)), Some (Fin (- 122)))
   \<and> (\<exists>rec. clean_charging_stations_row
               (raw [''latitude'' \<mapsto> ''45.5'', ''longitude'' \<mapsto> ''-122'', ''country_code'' \<mapsto> ''us'',
                     ''is_fast_dc'' \<mapsto> '''', ''city'' \<mapsto> '''']) = Inr (Some rec)
            \<and> rec ''is_fast_dc'' = Some (VBool False) \<and> rec ''city'' = None)"
proof -
  let ?r = "[''latitude'' \<mapsto> ''45.5'', ''longitude'' \<mapsto> ''-122'', ''country_code'' \<mapsto> ''us'',
             ''is_fast_dc'' \<mapsto> '''', ''city'' \<mapsto> '''']"
  have cells: "raw ?r ''latitude'' = Some (VStr ''45.5'')"
    "raw ?r ''longitude'' = Some (VStr ''-122'')"
    "py_or (raw ?r ''country_code'') (raw ?r ''country'') = Some (VStr ''us'')"
    "raw ?r ''ports'' = None"
    by (simp_all add: raw_def py_or_def)
  have h1: "validate_coordinates (raw ?r ''latitude'') (raw ?r ''longitude'')
              = Inr (Some (Fin (91 / 2)), Some (Fin (- 122)))"
    unfolding cells by (rule validate_coordinates_example)
  have h2: "clean_string (py_or (raw ?r ''country_code'') (raw ?r ''country'')) = Inr (Some ''us'')"
    unfolding cells by (rule clean_string_examples)
  have h3: "clean_numeric (raw ?r ''ports'') KInt = Inr None"
    unfolding cells by (simp add: clean_numeric_def)
  have h4: "?r ''is_fast_dc'' = Some ''''" by simp
  have h5: "?r ''city'' = Some ''''" by simp
  from station_fast_dc_empty[OF h1 h2 h3 h4] h1 h5 show ?thesis by blast
qed

subsection \<open>Vehicle acceptance (C1)\<close>

text \<open>
  C1 says that the vehicle cleaner emits a record for a row exactly when the make and the
  model are cleaned to a value and the state or the city is. The row below satisfies the
  right-hand side, yet no record is emitted: its year reads as an infinity and
  \<open>clean_year\<close> lets the \<open>OverflowError\<close> of C4 through, which ends the run.
\<close>

theorem population_cleaner_overflow:
  "clean_ev_population_data
     [raw [''make'' \<mapsto> ''tesla'', ''model'' \<mapsto> ''Model 3'', ''state'' \<mapsto> ''WA'',
           ''model_year'' \<mapsto> ''inf'']]
   = Inl OverflowError"
proof -
  let ?row = "raw [''make'' \<mapsto> ''tesla'', ''model'' \<mapsto> ''Model 3'', ''state'' \<mapsto> ''WA'',
                   ''model_year'' \<mapsto> ''inf'']"
  have make: "py_or (?row ''make'') (?row ''Make'') = Some (VStr ''tesla'')"
    and model: "py_or (?row ''model'') (?row ''Model'') = Some (VStr ''Model 3'')"
    and year: "py_or (py_or (py_or (?row ''model_year'') (?row ''Model Year'')) (?row ''year''))
                 (?row ''Year'') = Some (VStr ''inf'')"
    by (simp_all add: raw_def py_or_def)
  have "clean_ev_population_row ?row = Inl OverflowError"
    unfolding clean_ev_population_row_def make model year
    by (simp add: bind_err_def standardize_make_tesla clean_string_examples
          clean_year_inf_raises del: clean_string.simps)
  then show ?thesis by (simp add: clean_ev_population_data_def bind_err_def)
qed

text \<open>The example of C1 is cleaned as the claim says.\<close>

lemma population_example:
  "\<exists>rec. clean_ev_population_data
            [raw [''make'' \<mapsto> ''tesla'', ''model'' \<mapsto> ''Model 3'', ''state'' \<mapsto> ''WA'',
                  ''model_year'' \<mapsto> ''2021'']] = Inr [rec]
         \<and> rec ''make'' = Some (VStr ''Tesla'') \<and> rec ''model'' = Some (VStr ''Model 3'')
         \<and> rec ''state'' = Some (VStr ''WA'') \<and> rec ''model_year'' = Some (VNum (NInt 2021))"
proof -
  let ?row = "raw [''make'' \<mapsto> ''tesla'', ''model'' \<mapsto> ''Model 3'', ''state'' \<mapsto> ''WA'',
                   ''model_year'' \<mapsto> ''2021'']"
  let ?rec = "population_record ''Tesla'' ''Model 3'' (Some (NInt 2021)) None None None
                (Some ''WA'') None None None"
  have cells: "py_or (?row ''make'') (?row ''Make'') = Some (VStr ''tesla'')"
    "py_or (?row ''model'') (?row ''Model'') = Some (VStr ''Model 3'')"
    "py_or (py_or (py_or (?row ''model_year'') (?row ''Model Year'')) (?row ''year''))
       (?row ''Year'') = Some (VStr ''2021'')"
    "py_or (py_or (?row ''electric_vehicle_type'') (?row ''Electric Vehicle Type''))
       (?row ''EV Type'') = None"
    "py_or (py_or (?row ''electric_range'') (?row ''Electric Range'')) (?row ''range'') = None"
    "py_or (py_or (py_or (?row ''base_msrp'') (?row ''Base MSRP'')) (?row ''MSRP''))
       (?row ''price'') = None"
    "py_or (?row ''state'') (?row ''State'') = Some (VStr ''WA'')"
    "py_or (?row ''city'') (?row ''City'') = None"
    "py_or (?row ''county'') (?row ''County'') = None"
    "py_or (py_or (py_or (?row ''vin_1_10'') (?row ''VIN (1-10)'')) (?row ''VIN''))
       (?row ''vin'') = None"
    by (simp_all add: raw_def py_or_def)
  have look: "?rec ''make'' = Some (VStr ''Tesla'')" "?rec ''model'' = Some (VStr ''Model 3'')"
    "?rec ''state'' = Some (VStr ''WA'')" "?rec ''model_year'' = Some (VNum (NInt 2021))"
    "?rec ''city'' = None"
    by (simp_all add: population_record_def Let_def put_str_apply put_num_apply
          put_positive_apply)
  have "clean_ev_population_row ?row = Inr (Some ?rec)"
    unfolding clean_ev_population_row_def cells
    by (simp add: bind_err_def standardize_make_tesla clean_string_examples clean_year_2021
          clean_numeric_def look py_or_def clean_string_None del: clean_string.simps)
  then have "clean_ev_population_data [?row] = Inr [?rec]"
    by (simp add: clean_ev_population_data_def bind_err_def)
  with look show ?thesis by blast
qed

lemma title_from_Nil_iff: "title_from b s = [] \<longleftrightarrow> s = []"
  by (cases s) (simp_all add: title_chars_def)

lemma standardization_values_nonempty: "map_of standardization_map k = Some v \<Longrightarrow> v \<noteq> []"
  by (drule map_of_SomeD) (auto simp: standardization_map_def)

lemma standardize_make_never_empty: "standardize_make v \<noteq> Inr (Some [])"
  by (auto simp: standardize_make_def title_def title_from_Nil_iff
        dest: standardization_values_nonempty split: sum.splits option.splits if_splits)

lemma standardize_make_cell: "\<exists>x. standardize_make (map_option VStr c) = Inr x"
proof -
  obtain x where "clean_string (map_option VStr c) = Inr x" using clean_string_cell by blast
  then show ?thesis by (simp add: standardize_make_def split: option.splits)
qed

lemma population_record_lookup:
  "population_record mk md y ev er pr st c co v ''make'' = Some (VStr mk)"
  "population_record mk md y ev er pr st c co v ''model'' = Some (VStr md)"
  "population_record mk md y ev er pr st c co v ''state'' =
     (case st of None \<Rightarrow> None | Some t \<Rightarrow> if t \<noteq> [] then Some (VStr t) else None)"
  "population_record mk md y ev er pr st c co v ''city'' =
     (case c of None \<Rightarrow> None | Some t \<Rightarrow> if t \<noteq> [] then Some (VStr t) else None)"
  by (simp_all add: population_record_def Let_def put_str_apply put_num_apply
        put_positive_apply split: option.splits)

text \<open>
  Where the year and the electric range do not raise, the acceptance rule of C1 holds.
\<close>

lemma population_row_emitted_iff:
  assumes "clean_year (py_or (py_or (py_or (raw r ''model_year'') (raw r ''Model Year''))
                         (raw r ''year'')) (raw r ''Year'')) = Inr year"
    and "clean_numeric (py_or (py_or (raw r ''electric_range'') (raw r ''Electric Range''))
                         (raw r ''range'')) KInt = Inr electric_range"
  shows "(\<exists>rec. clean_ev_population_row (raw r) = Inr (Some rec)) \<longleftrightarrow>
         (\<exists>mk. standardize_make (py_or (raw r ''make'') (raw r ''Make'')) = Inr (Some mk))
         \<and> (\<exists>md. clean_string (py_or (raw r ''model'') (raw r ''Model'')) = Inr (Some md))
         \<and> ((\<exists>st. clean_string (py_or (raw r ''state'') (raw r ''State'')) = Inr (Some st))
            \<or> (\<exists>c. clean_string (py_or (raw r ''city'') (raw r ''City'')) = Inr (Some c)))"
proof -
  obtain make where make: "standardize_make (py_or (raw r ''make'') (raw r ''Make'')) = Inr make"
    using py_or_raw[of r "''make''" "''Make''"] standardize_make_cell by metis
  obtain model where model: "clean_string (py_or (raw r ''model'') (raw r ''Model'')) = Inr model"
    using py_or_raw[of r "''model''" "''Model''"] clean_string_cell by metis
  obtain ev_type where ev: "clean_string (py_or (py_or (raw r ''electric_vehicle_type'')
      (raw r ''Electric Vehicle Type'')) (raw r ''EV Type'')) = Inr ev_type"
    using py_or_raw3[of r "''electric_vehicle_type''" "''Electric Vehicle Type''" "''EV Type''"]
      clean_string_cell by metis
  obtain price where price: "clean_numeric (py_or (py_or (py_or (raw r ''base_msrp'')
      (raw r ''Base MSRP'')) (raw r ''MSRP'')) (raw r ''price'')) KFloat = Inr price"
    using py_or_raw4[of r "''base_msrp''" "''Base MSRP''" "''MSRP''" "''price''"]
      clean_numeric_float_cell by metis
  obtain state where state: "clean_string (py_or (raw r ''state'') (raw r ''State'')) = Inr state"
    using py_or_raw[of r "''state''" "''State''"] clean_string_cell by metis
  obtain city where city: "clean_string (py_or (raw r ''city'') (raw r ''City'')) = Inr city"
    using py_or_raw[of r "''city''" "''City''"] clean_string_cell by metis
  obtain county where county:
    "clean_string (py_or (raw r ''county'') (raw r ''County'')) = Inr county"
    using py_or_raw[of r "''county''" "''County''"] clean_string_cell by metis
  obtain vin where vin: "clean_string (py_or (py_or (py_or (raw r ''vin_1_10'')
      (raw r ''VIN (1-10)'')) (raw r ''VIN'')) (raw r ''vin'')) = Inr vin"
    using py_or_raw4[of r "''vin_1_10''" "''VIN (1-10)''" "''VIN''" "''vin''"]
      clean_string_cell by metis
  have ne: "make \<noteq> Some []" "model \<noteq> Some []" "state \<noteq> Some []" "city \<noteq> Some []"
    using make model state city standardize_make_never_empty clean_string_never_empty
    by metis+
  show ?thesis
    unfolding clean_ev_population_row_def assms make model ev price state city county vin
    using ne
    by (cases make; cases model; cases state; cases city)
       (simp_all add: bind_err_def Let_def population_record_lookup py_or_def)
qed

subsection \<open>What can raise\<close>

text \<open>
  On a string, every normalizer but \<open>clean_numeric\<close> with kind integer (and \<open>clean_year\<close>,
  which calls it) returns; and that one raises nothing but the \<open>OverflowError\<close> of C4, on
  a text that reads as an infinity.
\<close>

lemma normalizers_return_on_strings:
  "\<exists>x. clean_string (Some (VStr s)) = Inr x"
  "\<exists>x. clean_numeric (Some (VStr s)) KFloat = Inr x"
  "\<exists>x. standardize_make (Some (VStr s)) = Inr x"
  "\<exists>x. validate_coordinates (Some (VStr s)) (Some (VStr t)) = Inr x"
proof -
  show "\<exists>x. clean_string (Some (VStr s)) = Inr x"
    using clean_string_cell[of "Some s"] by simp
  show "\<exists>x. clean_numeric (Some (VStr s)) KFloat = Inr x"
    using clean_numeric_float_cell[of "Some s"] by simp
  show "\<exists>x. standardize_make (Some (VStr s)) = Inr x"
    using standardize_make_cell[of "Some s"] by simp
  show "\<exists>x. validate_coordinates (Some (VStr s)) (Some (VStr t)) = Inr x"
    by (simp add: validate_coordinates_def coordinates_checked_def float_if_string
          split: option.splits)
qed

lemma clean_numeric_int_raises:
  assumes "clean_numeric (Some (VStr s)) KInt = Inl e"
  shows "e = OverflowError
         \<and> (float_of_string (cleaned_text s) = Some PInf
            \<or> float_of_string (cleaned_text s) = Some NInf)"
proof (cases "float_of_string (cleaned_text s)")
  case None
  with assms show ?thesis
    by (simp add: clean_numeric_def numeric_of_text_def Let_def split: if_splits)
next
  case (Some f)
  with assms show ?thesis
    by (cases f) (simp_all add: clean_numeric_def numeric_of_text_def Let_def split: if_splits)
qed

section \<open>Cleaning a cleaned record set\<close>

subsection \<open>Walking the rows\<close>



subsection \<open>Reading numbers back\<close>








subsection \<open>Reading strings back\<close>




subsection \<open>Sales records\<close>





subsection \<open>Case conversion\<close>






























subsection \<open>Charging-station records\<close>









subsection \<open>Manufacturer names\<close>




subsection \<open>Vehicle records\<close>









subsection \<open>Cleaning twice (C3)\<close>











end
